theory Spec2Isabelle
  imports Main "HOL-Library.AList" "HOL-Library.Char_ord" "HOL-Library.List_Lexorder"
    "HOL-Library.Multiset"
begin

section \<open>Data model: cells, rows and data frames\<close>

text \<open>
  The script \<^verbatim>\<open>app.py\<close> works on pandas data frames. A frame is modelled as its ordered
  list of column names together with its ordered list of rows; a row is an association
  list from column name to cell. A cell is missing (pandas' NaN, NaT or None), a string,
  an integer, a timestamp (as produced by \<^verbatim>\<open>pd.to_datetime\<close>) or a list of strings (as
  produced by \<^verbatim>\<open>.str.split\<close>).

  The exceptions the pandas calls of the script can raise are values of \<open>error\<close>:
  a missing column (\<^verbatim>\<open>df["c"]\<close>), an order comparison on a cell that is not a number,
  \<^verbatim>\<open>int(nan)\<close>, and a variable that is not bound.
\<close>

datatype error = KeyError string | TypeError | ValueError | NameError

datatype timestamp = Timestamp (year: int) (month: nat) (day: nat)

datatype cell = CNull | CStr string | CInt int | CTime timestamp | CList "string list"

type_synonym row = "(string \<times> cell) list"

record dataframe =
  columns :: "string list"
  rows :: "row list"

definition bind_result :: "error + 'a \<Rightarrow> ('a \<Rightarrow> error + 'b) \<Rightarrow> error + 'b" where
  "bind_result m f = (case m of Inl e \<Rightarrow> Inl e | Inr x \<Rightarrow> f x)"

definition cell_of :: "row \<Rightarrow> string \<Rightarrow> cell" where
  "cell_of r c = (case map_of r c of Some v \<Rightarrow> v | None \<Rightarrow> CNull)"

text \<open>\<^verbatim>\<open>df[c]\<close>: the column as a list of cells, KeyError when the frame has no such column.\<close>

definition get_column :: "dataframe \<Rightarrow> string \<Rightarrow> error + cell list" where
  "get_column df c =
     (if c \<in> set (columns df) then Inr (map (\<lambda>r. cell_of r c) (rows df))
      else Inl (KeyError c))"

text \<open>
  \<^verbatim>\<open>df[c] = values\<close>: an existing column is overwritten in place, a new one is appended
  as the last column. The script only assigns columns computed from the same frame, so
  the values have one entry per row.
\<close>

definition set_column :: "dataframe \<Rightarrow> string \<Rightarrow> cell list \<Rightarrow> dataframe" where
  "set_column df c vals =
     df\<lparr>columns := (if c \<in> set (columns df) then columns df else columns df @ [c]),
        rows := map (\<lambda>(r, v). AList.update c v r) (zip (rows df) vals)\<rparr>"

text \<open>\<^verbatim>\<open>df[mask]\<close>: the rows at which the boolean mask is True, in order.\<close>

definition select_rows :: "dataframe \<Rightarrow> bool list \<Rightarrow> dataframe" where
  "select_rows df keep = df\<lparr>rows := map fst (filter snd (zip (rows df) keep))\<rparr>"

section \<open>The loader (\<^verbatim>\<open>load_data\<close>, lines 13-28)\<close>

text \<open>
  \<^verbatim>\<open>pd.to_datetime(col, errors="coerce")\<close>: the date parser is the library's; it is a
  parameter \<open>parse\<close>, which sees the whole column (pandas may settle on one format for
  the column) and the cell to convert. A missing cell stays missing, a cell the parser
  rejects becomes missing (\<^verbatim>\<open>errors="coerce"\<close>).
\<close>

type_synonym date_parser = "cell list \<Rightarrow> cell \<Rightarrow> timestamp option"

definition coerce_datetime :: "date_parser \<Rightarrow> cell list \<Rightarrow> cell \<Rightarrow> cell" where
  "coerce_datetime parse col c =
     (case c of
        CNull \<Rightarrow> CNull
      | CTime t \<Rightarrow> CTime t
      | _ \<Rightarrow> (case parse col c of Some t \<Rightarrow> CTime t | None \<Rightarrow> CNull))"

definition to_datetime :: "date_parser \<Rightarrow> cell list \<Rightarrow> cell list" where
  "to_datetime parse col = map (coerce_datetime parse col) col"

text \<open>\<^verbatim>\<open>df.dropna(subset=[c])\<close>: the rows whose cell in column \<open>c\<close> is not missing.\<close>

definition dropna :: "dataframe \<Rightarrow> string \<Rightarrow> error + dataframe" where
  "dropna df c =
     bind_result (get_column df c) (\<lambda>col. Inr (select_rows df (map (\<lambda>v. v \<noteq> CNull) col)))"

text \<open>\<^verbatim>\<open>col.dt.year\<close>: the calendar year of each timestamp, missing where the cell is missing.\<close>

definition dt_year :: "cell list \<Rightarrow> cell list" where
  "dt_year col = map (\<lambda>c. case c of CTime t \<Rightarrow> CInt (year t) | _ \<Rightarrow> CNull) col"

text \<open>\<^verbatim>\<open>col.fillna(v)\<close>.\<close>

definition fillna :: "cell list \<Rightarrow> cell \<Rightarrow> cell list" where
  "fillna col v = map (\<lambda>c. if c = CNull then v else c) col"

text \<open>\<^verbatim>\<open>df[c] = df[c].fillna(v)\<close>.\<close>

definition fill_column :: "dataframe \<Rightarrow> string \<Rightarrow> cell \<Rightarrow> error + dataframe" where
  "fill_column df c v =
     bind_result (get_column df c) (\<lambda>col. Inr (set_column df c (fillna col v)))"

text \<open>
  \<open>load_data parse raw\<close> is the body of \<^verbatim>\<open>load_data\<close> after \<^verbatim>\<open>pd.read_csv\<close> has returned
  the frame \<open>raw\<close>.
\<close>

definition load_data :: "date_parser \<Rightarrow> dataframe \<Rightarrow> error + dataframe" where
  "load_data parse raw =
     bind_result (get_column raw ''date_added'') (\<lambda>dates.
     bind_result (dropna (set_column raw ''date_added'' (to_datetime parse dates))
                    ''date_added'') (\<lambda>df1.
     bind_result (get_column df1 ''date_added'') (\<lambda>parsed.
     bind_result (fill_column (set_column df1 ''year_added'' (dt_year parsed))
                    ''country'' (CStr ''Unknown'')) (\<lambda>df2.
     bind_result (fill_column df2 ''listed_in'' (CStr ''Unknown'')) (\<lambda>df3.
     fill_column df3 ''rating'' (CStr ''Unknown''))))))"

text \<open>What the loader does to one raw row that it keeps.\<close>

definition parsed_date :: "date_parser \<Rightarrow> dataframe \<Rightarrow> row \<Rightarrow> cell" where
  "parsed_date parse raw r =
     coerce_datetime parse (map (\<lambda>r. cell_of r ''date_added'') (rows raw))
       (cell_of r ''date_added'')"

definition fill_unknown :: "string \<Rightarrow> row \<Rightarrow> row" where
  "fill_unknown c r =
     AList.update c (if cell_of r c = CNull then CStr ''Unknown'' else cell_of r c) r"

definition clean_row :: "cell \<Rightarrow> row \<Rightarrow> row" where
  "clean_row d r =
     fill_unknown ''rating'' (fill_unknown ''listed_in'' (fill_unknown ''country''
       (AList.update ''year_added'' (case d of CTime t \<Rightarrow> CInt (year t) | _ \<Rightarrow> CNull)
          (AList.update ''date_added'' d r))))"

section \<open>Series operations used by the script\<close>

text \<open>
  \<^verbatim>\<open>col.isin(values)\<close> and \<^verbatim>\<open>col.between(lo, hi)\<close> (both bounds inclusive). A missing
  cell is never between two bounds; comparing a string, a timestamp or a list with an
  integer bound raises TypeError.
\<close>

definition isin :: "cell list \<Rightarrow> cell list \<Rightarrow> bool list" where
  "isin col vals = map (\<lambda>c. c \<in> set vals) col"

fun numeric :: "cell \<Rightarrow> bool" where
  "numeric CNull = True"
| "numeric (CInt n) = True"
| "numeric c = False"

fun cell_between :: "int \<Rightarrow> int \<Rightarrow> cell \<Rightarrow> bool" where
  "cell_between lo hi (CInt y) = (lo \<le> y \<and> y \<le> hi)"
| "cell_between lo hi c = False"

definition between :: "cell list \<Rightarrow> int \<Rightarrow> int \<Rightarrow> error + bool list" where
  "between col lo hi =
     (if list_all numeric col then Inr (map (cell_between lo hi) col) else Inl TypeError)"

text \<open>
  Python's \<^verbatim>\<open>s.split(sep)\<close> for a non-empty separator: the pieces between the
  non-overlapping occurrences of \<open>sep\<close>, found from the left; the empty string gives one
  empty piece. \<open>acc\<close> is the current piece, reversed.
\<close>

function split_from :: "string \<Rightarrow> string \<Rightarrow> string \<Rightarrow> string list" where
  "split_from sep acc [] = [rev acc]"
| "split_from sep acc (c # cs) =
     (if sep \<noteq> [] \<and> take (length sep) (c # cs) = sep
      then rev acc # split_from sep [] (drop (length sep) (c # cs))
      else split_from sep (c # acc) cs)"
  by pat_completeness auto
termination
  by (relation "measure (\<lambda>(sep, acc, s). length s)") auto

definition split_str :: "string \<Rightarrow> string \<Rightarrow> string list" where
  "split_str sep s = split_from sep [] s"

text \<open>\<^verbatim>\<open>col.str.split(sep)\<close>: a string becomes the list of its pieces, any other cell NaN.\<close>

definition str_split :: "string \<Rightarrow> cell list \<Rightarrow> cell list" where
  "str_split sep col =
     map (\<lambda>c. case c of CStr s \<Rightarrow> CList (split_str sep s) | _ \<Rightarrow> CNull) col"

text \<open>
  \<^verbatim>\<open>explode\<close>: a list cell gives one entry per element, an empty list one missing entry,
  any other cell itself.
\<close>

fun explode_cell :: "cell \<Rightarrow> cell list" where
  "explode_cell (CList []) = [CNull]"
| "explode_cell (CList ts) = map CStr ts"
| "explode_cell c = [c]"

definition explode_series :: "cell list \<Rightarrow> cell list" where
  "explode_series col = concat (map explode_cell col)"

text \<open>\<^verbatim>\<open>df.explode(c)\<close>: each row is repeated once per entry of its cell in column \<open>c\<close>.\<close>

definition explode :: "dataframe \<Rightarrow> string \<Rightarrow> error + dataframe" where
  "explode df c =
     (if c \<in> set (columns df)
      then Inr (df\<lparr>rows := concat (map (\<lambda>r. map (\<lambda>v. AList.update c v r)
                                                (explode_cell (cell_of r c))) (rows df))\<rparr>)
      else Inl (KeyError c))"

text \<open>
  \<^verbatim>\<open>col.value_counts()\<close>: missing cells are dropped, the occurrences of each value are
  counted in one pass that keeps the values in the order they are first seen, and the
  table is then sorted by count, largest first. The script passes nothing that says in
  which order values with equal counts come out, and the library's default sort is not a
  stable one; so the sort is a parameter \<open>sort_desc\<close>, of which \<open>sorts_by_count\<close> says all
  that is known: it rearranges the table, and no entry comes before one with a larger
  count.
\<close>

fun count_insert :: "cell \<Rightarrow> (cell \<times> nat) list \<Rightarrow> (cell \<times> nat) list" where
  "count_insert k [] = [(k, 1)]"
| "count_insert k ((k', n) # kvs) =
     (if k = k' then (k', Suc n) # kvs else (k', n) # count_insert k kvs)"

definition count_values :: "cell list \<Rightarrow> (cell \<times> nat) list" where
  "count_values col = foldl (\<lambda>acc k. count_insert k acc) [] col"

type_synonym count_sort = "(cell \<times> nat) list \<Rightarrow> (cell \<times> nat) list"

definition sorts_by_count :: "count_sort \<Rightarrow> bool" where
  "sorts_by_count sort_desc \<longleftrightarrow>
     (\<forall>tbl. mset (sort_desc tbl) = mset tbl \<and>
            sorted_wrt (\<lambda>a b. snd b \<le> snd a) (sort_desc tbl))"

definition value_counts :: "count_sort \<Rightarrow> cell list \<Rightarrow> (cell \<times> nat) list" where
  "value_counts sort_desc col = sort_desc (count_values (filter (\<lambda>c. c \<noteq> CNull) col))"

text \<open>
  Two sorts by count: one leaves equal counts in the order of the table (a stable sort),
  the other turns them round.
\<close>

definition stable_count_sort :: count_sort where
  "stable_count_sort tbl = sort_key (\<lambda>(k, n). - int n) tbl"

definition reversing_count_sort :: count_sort where
  "reversing_count_sort tbl = rev (sort_key (\<lambda>(k, n). int n) tbl)"

text \<open>\<^verbatim>\<open>col.unique()\<close>: the distinct values in the order they are first seen.\<close>

definition unique :: "cell list \<Rightarrow> cell list" where
  "unique col = foldl (\<lambda>seen c. if c \<in> set seen then seen else seen @ [c]) [] col"

text \<open>
  Python's \<^verbatim>\<open>sorted\<close> on what a CSV column can hold once the missing cells are gone:
  strings compare with strings and integers with integers, anything else raises TypeError.
\<close>

fun strings_of :: "cell list \<Rightarrow> string list" where
  "strings_of [] = []"
| "strings_of (CStr s # cs) = s # strings_of cs"
| "strings_of (c # cs) = strings_of cs"

fun ints_of :: "cell list \<Rightarrow> int list" where
  "ints_of [] = []"
| "ints_of (CInt n # cs) = n # ints_of cs"
| "ints_of (c # cs) = ints_of cs"

definition sorted_cells :: "cell list \<Rightarrow> error + cell list" where
  "sorted_cells cs =
     (if length (strings_of cs) = length cs then Inr (map CStr (sort (strings_of cs)))
      else if length (ints_of cs) = length cs then Inr (map CInt (sort (ints_of cs)))
      else Inl TypeError)"

section \<open>Filter options (lines 35-58)\<close>

text \<open>
  The options and the default of the content-type selector:
  \<^verbatim>\<open>sorted(df["type"].dropna().unique())\<close>.
\<close>

definition content_type_options :: "dataframe \<Rightarrow> error + cell list" where
  "content_type_options df =
     bind_result (get_column df ''type'')
       (\<lambda>types. sorted_cells (unique (filter (\<lambda>c. c \<noteq> CNull) types)))"

text \<open>
  \<^verbatim>\<open>int(df["year_added"].min())\<close> and \<^verbatim>\<open>int(df["year_added"].max())\<close>: the minimum
  skips missing cells and is NaN on an empty column, where \<^verbatim>\<open>int\<close> raises ValueError.
\<close>

definition series_min :: "cell list \<Rightarrow> error + int" where
  "series_min col =
     (if list_all numeric col
      then (case ints_of col of [] \<Rightarrow> Inl ValueError | y # ys \<Rightarrow> Inr (fold min ys y))
      else Inl TypeError)"

definition series_max :: "cell list \<Rightarrow> error + int" where
  "series_max col =
     (if list_all numeric col
      then (case ints_of col of [] \<Rightarrow> Inl ValueError | y # ys \<Rightarrow> Inr (fold max ys y))
      else Inl TypeError)"

definition min_year :: "dataframe \<Rightarrow> error + int" where
  "min_year df = bind_result (get_column df ''year_added'') series_min"

definition max_year :: "dataframe \<Rightarrow> error + int" where
  "max_year df = bind_result (get_column df ''year_added'') series_max"

text \<open>\<^verbatim>\<open>df[c].str.split(", ").explode().value_counts()\<close>.\<close>

definition token_counts :: "count_sort \<Rightarrow> dataframe \<Rightarrow> string \<Rightarrow> error + (cell \<times> nat) list" where
  "token_counts sort_desc df c =
     bind_result (get_column df c)
       (\<lambda>col. Inr (value_counts sort_desc (explode_series (str_split '', '' col))))"



section \<open>Applying the filters (lines 67-76)\<close>

text \<open>
  The selection is what the three sidebar widgets return: the list \<open>content_type\<close>, the
  pair \<open>year_range\<close> and the list \<open>country_selected\<close>. Lines 67-70 are
  \<open>type_year_filter\<close>; \<open>filtered_df\<close> is the value of the variable of that name after
  line 76.
\<close>

definition type_year_filter :: "dataframe \<Rightarrow> cell list \<Rightarrow> int \<times> int \<Rightarrow> error + dataframe" where
  "type_year_filter df content_type year_range =
     bind_result (get_column df ''type'') (\<lambda>types.
     bind_result (get_column df ''year_added'') (\<lambda>years.
     bind_result (between years (fst year_range) (snd year_range)) (\<lambda>in_range.
     Inr (select_rows df (map2 (\<and>) (isin types content_type) in_range)))))"

definition filtered_df :: "dataframe \<Rightarrow> cell list \<Rightarrow> int \<times> int \<Rightarrow> cell list \<Rightarrow> error + dataframe" where
  "filtered_df df content_type year_range country_selected =
     bind_result (type_year_filter df content_type year_range) (\<lambda>filtered.
       if country_selected \<noteq> [] then
         bind_result (get_column filtered ''country'') (\<lambda>countries.
         bind_result (explode (set_column filtered ''country_exploded''
                                (str_split '', '' countries)) ''country_exploded'') (\<lambda>tmp.
         bind_result (get_column tmp ''country_exploded'') (\<lambda>exploded.
         Inr (select_rows tmp (isin exploded country_selected)))))
       else Inr filtered)"

text \<open>
  The mask of lines 68-69 at one row, the entries \<^verbatim>\<open>explode\<close> makes of one row's
  \<open>country\<close> (line 74-75), and what lines 67-76 need of the frame they read: the three
  columns, and a \<open>year_added\<close> that can be compared with the slider's bounds.
\<close>

definition row_retained :: "cell list \<Rightarrow> int \<times> int \<Rightarrow> row \<Rightarrow> bool" where
  "row_retained content_type year_range r \<longleftrightarrow>
     cell_of r ''type'' \<in> set content_type \<and>
     cell_between (fst year_range) (snd year_range) (cell_of r ''year_added'')"

definition country_tokens :: "row \<Rightarrow> cell list" where
  "country_tokens r = explode_series (str_split '', '' [cell_of r ''country''])"

definition filterable :: "dataframe \<Rightarrow> bool" where
  "filterable df \<longleftrightarrow>
     ''type'' \<in> set (columns df) \<and> ''year_added'' \<in> set (columns df) \<and>
     ''country'' \<in> set (columns df) \<and>
     list_all (\<lambda>r. numeric (cell_of r ''year_added'')) (rows df)"

section \<open>Lines 67-76 as statements on the script's variables\<close>

text \<open>
  The script keeps its frames in the module's variables \<^verbatim>\<open>df\<close>, \<^verbatim>\<open>filtered_df\<close> and
  \<^verbatim>\<open>tmp\<close>. A store holds the frame objects made so far and, for each variable, the
  object it is bound to. \<^verbatim>\<open>df[mask].copy()\<close>, \<^verbatim>\<open>filtered_df.copy()\<close>, \<^verbatim>\<open>tmp.explode(...)\<close>
  and \<^verbatim>\<open>tmp[mask].copy()\<close> make a new object; \<^verbatim>\<open>tmp["country_exploded"] = ...\<close> changes
  the object \<^verbatim>\<open>tmp\<close> is bound to, in place.
\<close>

record store =
  frames :: "dataframe list"
  var_df :: nat
  var_filtered_df :: "nat option"
  var_tmp :: "nat option"

definition deref :: "store \<Rightarrow> nat \<Rightarrow> error + dataframe" where
  "deref s r = (if r < length (frames s) then Inr (frames s ! r) else Inl NameError)"

definition lookup_var :: "store \<Rightarrow> nat option \<Rightarrow> error + dataframe" where
  "lookup_var s v = (case v of None \<Rightarrow> Inl NameError | Some r \<Rightarrow> deref s r)"

text \<open>Lines 67-70.\<close>

definition assign_filtered_df :: "cell list \<Rightarrow> int \<times> int \<Rightarrow> store \<Rightarrow> error + store" where
  "assign_filtered_df content_type year_range s =
     bind_result (deref s (var_df s)) (\<lambda>df.
     bind_result (type_year_filter df content_type year_range) (\<lambda>selected.
     Inr (s\<lparr>frames := frames s @ [selected], var_filtered_df := Some (length (frames s))\<rparr>)))"

text \<open>Lines 73-76, one \<open>let\<close> per assignment.\<close>

definition explode_countries :: "cell list \<Rightarrow> store \<Rightarrow> error + store" where
  "explode_countries country_selected s =
     bind_result (lookup_var s (var_filtered_df s)) (\<lambda>filtered.
       let r_tmp = length (frames s);
           s1 = s\<lparr>frames := frames s @ [filtered], var_tmp := Some r_tmp\<rparr>
       in bind_result (deref s1 r_tmp) (\<lambda>tmp.
          bind_result (get_column tmp ''country'') (\<lambda>countries.
       let s2 = s1\<lparr>frames := (frames s1)[r_tmp := set_column tmp ''country_exploded''
                                                  (str_split '', '' countries)]\<rparr>
       in bind_result (deref s2 r_tmp) (\<lambda>tmp.
          bind_result (explode tmp ''country_exploded'') (\<lambda>exploded.
       let r_exploded = length (frames s2);
           s3 = s2\<lparr>frames := frames s2 @ [exploded], var_tmp := Some r_exploded\<rparr>
       in bind_result (deref s3 r_exploded) (\<lambda>tmp.
          bind_result (get_column tmp ''country_exploded'') (\<lambda>tokens.
          Inr (s3\<lparr>frames := frames s3 @ [select_rows tmp (isin tokens country_selected)],
                  var_filtered_df := Some (length (frames s3))\<rparr>))))))))"

definition exec_filter :: "cell list \<Rightarrow> int \<times> int \<Rightarrow> cell list \<Rightarrow> store \<Rightarrow> error + store" where
  "exec_filter content_type year_range country_selected s =
     bind_result (assign_filtered_df content_type year_range s) (\<lambda>s1.
       if country_selected \<noteq> [] then explode_countries country_selected s1 else Inr s1)"

text \<open>The frame \<^verbatim>\<open>filtered_df\<close> is bound to, which the KPI row and the charts read.\<close>

definition result_frame :: "store \<Rightarrow> error + dataframe" where
  "result_frame s = lookup_var s (var_filtered_df s)"

section \<open>KPI and aggregates (lines 78-158)\<close>

text \<open>\<^verbatim>\<open>len(filtered_df)\<close>, the "Total Titles" counter.\<close>

definition total_titles :: "dataframe \<Rightarrow> nat" where
  "total_titles fdf = length (rows fdf)"

text \<open>
  \<^verbatim>\<open>.drop(index=["Unknown"], errors="ignore")\<close> removes the entry of that label when
  there is one; \<^verbatim>\<open>.head(n)\<close> keeps the first \<open>n\<close> entries. \<open>top_countries\<close> and
  \<open>top_genres\<close> are the tables of lines 112-117 and 128-133.
\<close>

definition drop_index :: "cell list \<Rightarrow> (cell \<times> nat) list \<Rightarrow> (cell \<times> nat) list" where
  "drop_index labels counts = filter (\<lambda>(k, n). k \<notin> set labels) counts"

definition top_countries :: "count_sort \<Rightarrow> dataframe \<Rightarrow> error + (cell \<times> nat) list" where
  "top_countries sort_desc fdf =
     bind_result (token_counts sort_desc fdf ''country'')
       (\<lambda>counts. Inr (take 10 (drop_index [CStr ''Unknown''] counts)))"

definition top_genres :: "count_sort \<Rightarrow> dataframe \<Rightarrow> error + (cell \<times> nat) list" where
  "top_genres sort_desc fdf =
     bind_result (token_counts sort_desc fdf ''listed_in'')
       (\<lambda>counts. Inr (take 12 (drop_index [CStr ''Unknown''] counts)))"

text \<open>
  Lines 119 and 135 then reorder each table for its horizontal bar chart
  (\<^verbatim>\<open>sort_values(..., ascending=True)\<close>); the tables above are those of lines 112-117 and
  128-133, before that.
\<close>

text \<open>\<^verbatim>\<open>filtered_df["rating"].value_counts().reset_index()\<close>.\<close>

definition rating_counts :: "count_sort \<Rightarrow> dataframe \<Rightarrow> error + (cell \<times> nat) list" where
  "rating_counts sort_desc fdf =
     bind_result (get_column fdf ''rating'') (\<lambda>col. Inr (value_counts sort_desc col))"

section \<open>Words of the specification\<close>

text \<open>
  The tokens of a column are the entries of its exploded split, and the values of a column
  its cells, missing ones left out in both (\<^verbatim>\<open>value_counts\<close> does not count them). The
  specification orders tokens "by descending frequency, ties broken by first-encountered
  order": \<open>ranks_before toks a b\<close> says that \<open>a\<close> comes before \<open>b\<close> in that order,
  \<open>first_index\<close> being the position of the first occurrence. It is the order that a
  stable sort by count gives.
\<close>

definition column_tokens :: "dataframe \<Rightarrow> string \<Rightarrow> cell list" where
  "column_tokens df c =
     filter (\<lambda>t. t \<noteq> CNull) (explode_series (str_split '', '' (map (\<lambda>r. cell_of r c) (rows df))))"

definition column_values :: "dataframe \<Rightarrow> string \<Rightarrow> cell list" where
  "column_values df c = filter (\<lambda>v. v \<noteq> CNull) (map (\<lambda>r. cell_of r c) (rows df))"

fun first_index :: "cell list \<Rightarrow> cell \<Rightarrow> nat" where
  "first_index [] k = 0"
| "first_index (x # xs) k = (if x = k then 0 else Suc (first_index xs k))"

definition ranks_before :: "cell list \<Rightarrow> cell \<Rightarrow> cell \<Rightarrow> bool" where
  "ranks_before toks a b \<longleftrightarrow>
     count_list toks b < count_list toks a \<or>
     (count_list toks a = count_list toks b \<and> first_index toks a < first_index toks b)"

text \<open>
  "Top-N: the N most frequent distinct values": a token that is left out of a table of
  \<open>n\<close> entries is "Unknown", or the table is full and none of its entries is less frequent.
\<close>

definition most_frequent :: "nat \<Rightarrow> cell list \<Rightarrow> (cell \<times> nat) list \<Rightarrow> bool" where
  "most_frequent n toks tbl \<longleftrightarrow>
     (\<forall>k \<in> set toks. k = CStr ''Unknown'' \<or> k \<in> fst ` set tbl \<or>
        (length tbl = n \<and> (\<forall>p \<in> set tbl. count_list toks k \<le> snd p)))"

section \<open>Example data\<close>

text \<open>
  A five-line CSV as \<^verbatim>\<open>read_csv\<close> returns it, a date parser that knows its four
  well-formed dates, and the frame the loader makes of them: the second line has no
  usable date, and the gaps of the others are filled.
\<close>

definition demo_parse :: date_parser where
  "demo_parse col c =
     (if c = CStr ''January 1, 2018'' then Some (Timestamp 2018 1 1)
      else if c = CStr ''March 5, 2020'' then Some (Timestamp 2020 3 5)
      else if c = CStr ''September 25, 2020'' then Some (Timestamp 2020 9 25)
      else if c = CStr ''September 25, 2021'' then Some (Timestamp 2021 9 25)
      else None)"

definition demo_csv :: dataframe where
  "demo_csv =
     \<lparr>columns = [''type'', ''date_added'', ''country'', ''listed_in'', ''rating''],
      rows =
        [[(''type'', CStr ''Movie''), (''date_added'', CStr ''January 1, 2018''),
          (''country'', CStr ''India, Canada''), (''listed_in'', CStr ''Dramas''),
          (''rating'', CStr ''PG'')],
         [(''type'', CStr ''TV Show''), (''date_added'', CStr ''sometime''),
          (''country'', CStr ''India''), (''listed_in'', CStr ''Comedies''),
          (''rating'', CStr ''TV-MA'')],
         [(''type'', CStr ''TV Show''), (''date_added'', CStr ''March 5, 2020''),
          (''country'', CNull), (''listed_in'', CStr ''Comedies, Dramas''),
          (''rating'', CStr ''TV-MA'')],
         [(''type'', CStr ''Movie''), (''date_added'', CStr ''September 25, 2020''),
          (''country'', CStr ''Brazil''), (''listed_in'', CNull),
          (''rating'', CStr ''TV-MA'')],
         [(''type'', CStr ''Movie''), (''date_added'', CStr ''September 25, 2021''),
          (''country'', CStr ''Canada, India''), (''listed_in'', CStr ''Dramas''),
          (''rating'', CNull)]]\<rparr>"

definition demo_row1 :: row where
  "demo_row1 =
     [(''type'', CStr ''Movie''), (''date_added'', CTime (Timestamp 2018 1 1)),
      (''country'', CStr ''India, Canada''), (''listed_in'', CStr ''Dramas''),
      (''rating'', CStr ''PG''), (''year_added'', CInt 2018)]"

definition demo_row3 :: row where
  "demo_row3 =
     [(''type'', CStr ''TV Show''), (''date_added'', CTime (Timestamp 2020 3 5)),
      (''country'', CStr ''Unknown''), (''listed_in'', CStr ''Comedies, Dramas''),
      (''rating'', CStr ''TV-MA''), (''year_added'', CInt 2020)]"

definition demo_row4 :: row where
  "demo_row4 =
     [(''type'', CStr ''Movie''), (''date_added'', CTime (Timestamp 2020 9 25)),
      (''country'', CStr ''Brazil''), (''listed_in'', CStr ''Unknown''),
      (''rating'', CStr ''TV-MA''), (''year_added'', CInt 2020)]"

definition demo_row5 :: row where
  "demo_row5 =
     [(''type'', CStr ''Movie''), (''date_added'', CTime (Timestamp 2021 9 25)),
      (''country'', CStr ''Canada, India''), (''listed_in'', CStr ''Dramas''),
      (''rating'', CStr ''Unknown''), (''year_added'', CInt 2021)]"

definition demo_columns :: "string list" where
  "demo_columns = [''type'', ''date_added'', ''country'', ''listed_in'', ''rating'', ''year_added'']"

definition demo_df :: dataframe where
  "demo_df = \<lparr>columns = demo_columns, rows = [demo_row1, demo_row3, demo_row4, demo_row5]\<rparr>"

text \<open>What the filter returns on the example for movies of 2018-2021 from Canada.\<close>

definition demo_canada :: dataframe where
  "demo_canada =
     \<lparr>columns = demo_columns @ [''country_exploded''],
      rows = [AList.update ''country_exploded'' (CStr ''Canada'') demo_row1,
              AList.update ''country_exploded'' (CStr ''Canada'') demo_row5]\<rparr>"

text \<open>A two-line CSV whose first line has no \<open>type\<close>, and the frame the loader makes of it.\<close>

definition demo_untyped_csv :: dataframe where
  "demo_untyped_csv =
     \<lparr>columns = [''type'', ''date_added'', ''country'', ''listed_in'', ''rating''],
      rows =
        [[(''type'', CNull), (''date_added'', CStr ''January 1, 2018''),
          (''country'', CStr ''India''), (''listed_in'', CStr ''Dramas''),
          (''rating'', CStr ''PG'')],
         [(''type'', CStr ''Movie''), (''date_added'', CStr ''March 5, 2020''),
          (''country'', CStr ''Canada''), (''listed_in'', CStr ''Dramas''),
          (''rating'', CStr ''PG'')]]\<rparr>"

definition demo_untyped :: dataframe where
  "demo_untyped =
     \<lparr>columns = demo_columns,
      rows =
        [[(''type'', CNull), (''date_added'', CTime (Timestamp 2018 1 1)),
          (''country'', CStr ''India''), (''listed_in'', CStr ''Dramas''),
          (''rating'', CStr ''PG''), (''year_added'', CInt 2018)],
         [(''type'', CStr ''Movie''), (''date_added'', CTime (Timestamp 2020 3 5)),
          (''country'', CStr ''Canada''), (''listed_in'', CStr ''Dramas''),
          (''rating'', CStr ''PG''), (''year_added'', CInt 2020)]]\<rparr>"

text \<open>The store after line 30 on the example: \<^verbatim>\<open>df\<close> is bound, nothing else is.\<close>

definition demo_store :: store where
  "demo_store = \<lparr>frames = [demo_df], var_df = 0, var_filtered_df = None, var_tmp = None\<rparr>"

section \<open>Basic facts about frames\<close>

lemma bind_result_Inr [simp]: "bind_result (Inr x) f = f x"
  by (simp add: bind_result_def)

lemma bind_result_Inl [simp]: "bind_result (Inl e) f = Inl e"
  by (simp add: bind_result_def)

lemma bind_result_eq_Inr:
  "bind_result m f = Inr y \<longleftrightarrow> (\<exists>x. m = Inr x \<and> f x = Inr y)"
  by (cases m) simp_all

lemma cell_of_update [simp]:
  "cell_of (AList.update k v r) c = (if c = k then v else cell_of r c)"
  by (simp add: cell_of_def update_conv')

lemma zip_map_same: "zip xs (map f xs) = map (\<lambda>x. (x, f x)) xs"
  by (induction xs) simp_all

lemma set_column_map:
  "set_column df c (map f (rows df)) =
     df\<lparr>columns := (if c \<in> set (columns df) then columns df else columns df @ [c]),
        rows := map (\<lambda>r. AList.update c (f r) r) (rows df)\<rparr>"
  by (simp add: set_column_def zip_map_same o_def)

lemma select_rows_map:
  "select_rows df (map p (rows df)) = df\<lparr>rows := filter p (rows df)\<rparr>"
proof -
  have "map fst (filter snd (zip xs (map p xs))) = filter p xs" for xs :: "row list"
    by (induction xs) simp_all
  then show ?thesis by (simp add: select_rows_def)
qed

lemma get_column_Inr:
  "get_column df c = Inr col \<longleftrightarrow> c \<in> set (columns df) \<and> col = map (\<lambda>r. cell_of r c) (rows df)"
  by (auto simp: get_column_def)

section \<open>The loader keeps the rows with a date and fills the gaps\<close>

lemma dropna_Inr:
  "dropna df c = Inr df' \<longleftrightarrow>
     c \<in> set (columns df) \<and> df' = df\<lparr>rows := filter (\<lambda>r. cell_of r c \<noteq> CNull) (rows df)\<rparr>"
proof -
  have "select_rows df (map (\<lambda>v. v \<noteq> CNull) (map (\<lambda>r. cell_of r c) (rows df)))
          = df\<lparr>rows := filter (\<lambda>r. cell_of r c \<noteq> CNull) (rows df)\<rparr>"
    using select_rows_map [of df "\<lambda>r. cell_of r c \<noteq> CNull"] by (simp add: o_def)
  then show ?thesis
    by (auto simp: dropna_def get_column_def)
qed

lemma fill_column_Inr:
  "fill_column df c v = Inr df' \<longleftrightarrow>
     c \<in> set (columns df) \<and>
     df' = df\<lparr>rows := map (\<lambda>r. AList.update c (if cell_of r c = CNull then v else cell_of r c) r)
                         (rows df)\<rparr>"
proof -
  have "set_column df c (fillna (map (\<lambda>r. cell_of r c) (rows df)) v)
          = df\<lparr>columns := (if c \<in> set (columns df) then columns df else columns df @ [c]),
               rows := map (\<lambda>r. AList.update c (if cell_of r c = CNull then v else cell_of r c) r)
                         (rows df)\<rparr>"
    using set_column_map [of df c "\<lambda>r. if cell_of r c = CNull then v else cell_of r c"]
    by (simp add: fillna_def o_def)
  then show ?thesis
    by (auto simp: fill_column_def get_column_def)
qed

lemma to_datetime_column:
  "to_datetime parse (map (\<lambda>r. cell_of r ''date_added'') (rows raw))
     = map (parsed_date parse raw) (rows raw)"
  by (simp add: to_datetime_def parsed_date_def o_def)

lemma dt_year_column:
  "dt_year (map (\<lambda>r. cell_of r c) rs)
     = map (\<lambda>r. case cell_of r c of CTime t \<Rightarrow> CInt (year t) | _ \<Rightarrow> CNull) rs"
  by (simp add: dt_year_def o_def)

lemma set_year_column:
  "set_column df ''year_added'' (dt_year (map (\<lambda>r. cell_of r ''date_added'') (rows df)))
     = df\<lparr>columns := (if ''year_added'' \<in> set (columns df) then columns df
                          else columns df @ [''year_added'']),
            rows := map (\<lambda>r. AList.update ''year_added''
                               (case cell_of r ''date_added'' of CTime t \<Rightarrow> CInt (year t)
                                | _ \<Rightarrow> CNull) r) (rows df)\<rparr>"
  using set_column_map [of df "''year_added''"
      "\<lambda>r. case cell_of r ''date_added'' of CTime t \<Rightarrow> CInt (year t) | _ \<Rightarrow> CNull"]
  by (simp add: dt_year_def o_def)

lemma set_date_column:
  "set_column raw ''date_added'' (to_datetime parse (map (\<lambda>r. cell_of r ''date_added'') (rows raw)))
     = raw\<lparr>columns := (if ''date_added'' \<in> set (columns raw) then columns raw
                          else columns raw @ [''date_added'']),
             rows := map (\<lambda>r. AList.update ''date_added'' (parsed_date parse raw r) r) (rows raw)\<rparr>"
  using set_column_map [of raw "''date_added''" "parsed_date parse raw"]
  by (simp add: to_datetime_column)

lemma load_data_iff:
  "load_data parse raw = Inr df \<longleftrightarrow>
     {''date_added'', ''country'', ''listed_in'', ''rating''} \<subseteq> set (columns raw) \<and>
     df = raw\<lparr>columns := (if ''year_added'' \<in> set (columns raw) then columns raw
                            else columns raw @ [''year_added'']),
               rows := map (\<lambda>r. clean_row (parsed_date parse raw r) r)
                         (filter (\<lambda>r. parsed_date parse raw r \<noteq> CNull) (rows raw))\<rparr>"
proof (cases "''date_added'' \<in> set (columns raw)")
  case False
  then show ?thesis by (simp add: load_data_def get_column_def)
next
  case date: True
  let ?kept = "filter (\<lambda>r. parsed_date parse raw r \<noteq> CNull) (rows raw)"
  let ?df1 = "raw\<lparr>rows := map (\<lambda>r. AList.update ''date_added'' (parsed_date parse raw r) r) ?kept\<rparr>"
  let ?year = "\<lambda>r. AList.update ''year_added''
                   (case cell_of r ''date_added'' of CTime t \<Rightarrow> CInt (year t) | _ \<Rightarrow> CNull) r"
  let ?df2 = "?df1\<lparr>columns := (if ''year_added'' \<in> set (columns raw) then columns raw
                          else columns raw @ [''year_added'']),
                    rows := map ?year (rows ?df1)\<rparr>"
  have step1: "dropna (set_column raw ''date_added''
                 (to_datetime parse (map (\<lambda>r. cell_of r ''date_added'') (rows raw)))) ''date_added''
               = Inr ?df1"
    using date by (simp add: set_date_column dropna_Inr filter_map o_def)
  have step2: "get_column ?df1 ''date_added'' = Inr (map (\<lambda>r. cell_of r ''date_added'') (rows ?df1))"
    using date by (simp add: get_column_def)
  have step3: "set_column ?df1 ''year_added'' (dt_year (map (\<lambda>r. cell_of r ''date_added'') (rows ?df1)))
               = ?df2"
    by (simp only: set_year_column) simp
  have "load_data parse raw = bind_result (fill_column ?df2 ''country'' (CStr ''Unknown'')) (\<lambda>df2.
     bind_result (fill_column df2 ''listed_in'' (CStr ''Unknown'')) (\<lambda>df3.
     fill_column df3 ''rating'' (CStr ''Unknown'')))"
    unfolding load_data_def using date
    by (simp only: get_column_def if_True bind_result_Inr step1 step2 [unfolded get_column_def] step3)
  then show ?thesis
    using date
    by (auto simp: bind_result_eq_Inr fill_column_Inr clean_row_def fill_unknown_def o_def)
qed

lemma cell_of_fill_unknown:
  "cell_of (fill_unknown c r) c' =
     (if c' = c then (if cell_of r c = CNull then CStr ''Unknown'' else cell_of r c)
      else cell_of r c')"
  by (simp add: fill_unknown_def)

lemma clean_row_cells:
  "cell_of (clean_row (CTime t) r) ''date_added'' = CTime t"
  "cell_of (clean_row (CTime t) r) ''year_added'' = CInt (year t)"
  "cell_of (clean_row d r) ''country'' =
     (if cell_of r ''country'' = CNull then CStr ''Unknown'' else cell_of r ''country'')"
  "cell_of (clean_row d r) ''listed_in'' =
     (if cell_of r ''listed_in'' = CNull then CStr ''Unknown'' else cell_of r ''listed_in'')"
  "cell_of (clean_row d r) ''rating'' =
     (if cell_of r ''rating'' = CNull then CStr ''Unknown'' else cell_of r ''rating'')"
  by (simp_all add: clean_row_def cell_of_fill_unknown)

lemma parsed_date_cases:
  "parsed_date parse raw r = CNull \<or> (\<exists>t. parsed_date parse raw r = CTime t)"
  by (simp add: parsed_date_def coerce_datetime_def split: cell.split option.split)

lemma load_data_row_cells:
  assumes "load_data parse raw = Inr df" and "r' \<in> set (rows df)"
  shows "(\<exists>t. cell_of r' ''date_added'' = CTime t \<and> cell_of r' ''year_added'' = CInt (year t)) \<and>
         cell_of r' ''country'' \<noteq> CNull \<and> cell_of r' ''listed_in'' \<noteq> CNull \<and>
         cell_of r' ''rating'' \<noteq> CNull"
proof -
  from assms obtain r where r: "parsed_date parse raw r \<noteq> CNull"
    and r': "r' = clean_row (parsed_date parse raw r) r"
    by (auto simp: load_data_iff)
  from r parsed_date_cases [of parse raw r] obtain t where "parsed_date parse raw r = CTime t"
    by auto
  with r' show ?thesis by (simp add: clean_row_cells)
qed

text \<open>
  C4. Every row the loader returns comes from a raw row whose date parsed (the others are
  left out, not defaulted): its \<open>date_added\<close> is a timestamp, its \<open>year_added\<close> is the
  calendar year of that timestamp, and its \<open>country\<close>, \<open>listed_in\<close> and \<open>rating\<close> are
  not missing, a missing one having been replaced by the string "Unknown".
\<close>

theorem load_data_cleaned:
  assumes "load_data parse raw = Inr df"
  shows "rows df = map (\<lambda>r. clean_row (parsed_date parse raw r) r)
                     (filter (\<lambda>r. parsed_date parse raw r \<noteq> CNull) (rows raw)) \<and>
         (\<forall>r \<in> set (rows df).
            (\<exists>t. cell_of r ''date_added'' = CTime t \<and> cell_of r ''year_added'' = CInt (year t)) \<and>
            cell_of r ''country'' \<noteq> CNull \<and> cell_of r ''listed_in'' \<noteq> CNull \<and>
            cell_of r ''rating'' \<noteq> CNull) \<and>
         (\<forall>d r. \<forall>c \<in> {''country'', ''listed_in'', ''rating''}.
            cell_of (clean_row d r) c =
              (if cell_of r c = CNull then CStr ''Unknown'' else cell_of r c))"
proof -
  have rows_eq: "rows df = map (\<lambda>r. clean_row (parsed_date parse raw r) r)
                     (filter (\<lambda>r. parsed_date parse raw r \<noteq> CNull) (rows raw))"
    using assms by (simp only: load_data_iff) simp
  have kept: "\<forall>r \<in> set (rows df).
            (\<exists>t. cell_of r ''date_added'' = CTime t \<and> cell_of r ''year_added'' = CInt (year t)) \<and>
            cell_of r ''country'' \<noteq> CNull \<and> cell_of r ''listed_in'' \<noteq> CNull \<and>
            cell_of r ''rating'' \<noteq> CNull"
    using load_data_row_cells [OF assms] by blast
  have filled: "\<forall>d r. \<forall>c \<in> {''country'', ''listed_in'', ''rating''}.
            cell_of (clean_row d r) c =
              (if cell_of r c = CNull then CStr ''Unknown'' else cell_of r c)"
    by (simp add: clean_row_cells)
  from rows_eq kept filled show ?thesis by blast
qed

lemmas demo_defs =
  demo_df_def demo_columns_def demo_row1_def demo_row3_def demo_row4_def demo_row5_def

lemma load_demo: "load_data demo_parse demo_csv = Inr demo_df"
  by code_simp

theorem load_data_cleaned_witness:
  "load_data demo_parse demo_csv = Inr demo_df \<and>
   length (rows demo_csv) = 5 \<and>
   map (\<lambda>r. (cell_of r ''date_added'', cell_of r ''year_added'', cell_of r ''country'',
              cell_of r ''listed_in'', cell_of r ''rating'')) (rows demo_df) =
     [(CTime (Timestamp 2018 1 1), CInt 2018, CStr ''India, Canada'', CStr ''Dramas'', CStr ''PG''),
      (CTime (Timestamp 2020 3 5), CInt 2020, CStr ''Unknown'', CStr ''Comedies, Dramas'',
       CStr ''TV-MA''),
      (CTime (Timestamp 2020 9 25), CInt 2020, CStr ''Brazil'', CStr ''Unknown'', CStr ''TV-MA''),
      (CTime (Timestamp 2021 9 25), CInt 2021, CStr ''Canada, India'', CStr ''Dramas'',
       CStr ''Unknown'')]"
proof -
  have "length (rows demo_csv) = 5"
    by (simp add: demo_csv_def)
  moreover have "map (\<lambda>r. (cell_of r ''date_added'', cell_of r ''year_added'', cell_of r ''country'',
              cell_of r ''listed_in'', cell_of r ''rating'')) (rows demo_df) =
     [(CTime (Timestamp 2018 1 1), CInt 2018, CStr ''India, Canada'', CStr ''Dramas'', CStr ''PG''),
      (CTime (Timestamp 2020 3 5), CInt 2020, CStr ''Unknown'', CStr ''Comedies, Dramas'',
       CStr ''TV-MA''),
      (CTime (Timestamp 2020 9 25), CInt 2020, CStr ''Brazil'', CStr ''Unknown'', CStr ''TV-MA''),
      (CTime (Timestamp 2021 9 25), CInt 2021, CStr ''Canada, India'', CStr ''Dramas'',
       CStr ''Unknown'')]"
    by (simp add: demo_defs cell_of_def)
  ultimately show ?thesis
    using load_data_cleaned [OF load_demo] load_demo by simp
qed

section \<open>What the filter keeps\<close>

lemma between_Inr:
  "between col lo hi = Inr m \<longleftrightarrow> list_all numeric col \<and> m = map (cell_between lo hi) col"
  by (auto simp: between_def)

lemma mask_rows:
  "map2 (\<and>) (isin (map f rs) vals) (map g rs) = map (\<lambda>r. f r \<in> set vals \<and> g r) rs"
  by (induction rs) (simp_all add: isin_def)

lemma type_year_filter_iff:
  "type_year_filter df content_type year_range = Inr out \<longleftrightarrow>
     ''type'' \<in> set (columns df) \<and> ''year_added'' \<in> set (columns df) \<and>
     list_all (\<lambda>r. numeric (cell_of r ''year_added'')) (rows df) \<and>
     out = df\<lparr>rows := filter (row_retained content_type year_range) (rows df)\<rparr>"
proof -
  have "select_rows df (map2 (\<and>) (isin (map (\<lambda>r. cell_of r ''type'') (rows df)) content_type)
           (map (cell_between (fst year_range) (snd year_range))
              (map (\<lambda>r. cell_of r ''year_added'') (rows df))))
        = df\<lparr>rows := filter (row_retained content_type year_range) (rows df)\<rparr>"
    using select_rows_map [of df "row_retained content_type year_range"]
      mask_rows [of "\<lambda>r. cell_of r ''type''" "rows df" content_type
        "\<lambda>r. cell_between (fst year_range) (snd year_range) (cell_of r ''year_added'')"]
    by (simp add: o_def row_retained_def [abs_def])
  then show ?thesis
    by (auto simp: type_year_filter_def bind_result_eq_Inr get_column_Inr between_Inr
        list_all_iff)
qed

lemma type_year_filter_filterable:
  "filterable df \<Longrightarrow>
     type_year_filter df content_type year_range
       = Inr (df\<lparr>rows := filter (row_retained content_type year_range) (rows df)\<rparr>)"
  by (simp add: type_year_filter_iff filterable_def)

lemma split_from_nonempty: "split_from sep acc s \<noteq> []"
  by (induction sep acc s rule: split_from.induct) simp_all

lemma explode_cell_split:
  "explode_cell (CList (split_str sep s)) = map CStr (split_str sep s)"
  using split_from_nonempty [of sep "[]" s]
  by (cases "split_str sep s") (simp_all add: split_str_def)

lemma country_tokens_str:
  "cell_of r ''country'' = CStr s \<Longrightarrow> country_tokens r = map CStr (split_str '', '' s)"
  by (simp add: country_tokens_def explode_series_def str_split_def explode_cell_split)

lemma explode_country_rows:
  "explode (set_column f ''country_exploded''
              (str_split '', '' (map (\<lambda>r. cell_of r ''country'') (rows f)))) ''country_exploded''
     = Inr (f\<lparr>columns := (if ''country_exploded'' \<in> set (columns f) then columns f
                           else columns f @ [''country_exploded'']),
              rows := concat (map (\<lambda>r. map (\<lambda>t. AList.update ''country_exploded'' t r)
                                          (country_tokens r)) (rows f))\<rparr>)"
proof -
  have "set_column f ''country_exploded''
              (str_split '', '' (map (\<lambda>r. cell_of r ''country'') (rows f)))
        = f\<lparr>columns := (if ''country_exploded'' \<in> set (columns f) then columns f
                           else columns f @ [''country_exploded'']),
             rows := map (\<lambda>r. AList.update ''country_exploded''
                          (case cell_of r ''country'' of CStr s \<Rightarrow> CList (split_str '', '' s)
                           | _ \<Rightarrow> CNull) r) (rows f)\<rparr>"
    using set_column_map [of f "''country_exploded''"
        "\<lambda>r. case cell_of r ''country'' of CStr s \<Rightarrow> CList (split_str '', '' s) | _ \<Rightarrow> CNull"]
    by (simp add: str_split_def o_def)
  then show ?thesis
    by (simp add: explode_def o_def country_tokens_def explode_series_def str_split_def)
qed

lemma filtered_df_filterable:
  assumes "filterable df"
  shows "filtered_df df content_type year_range country_selected =
     Inr (if country_selected \<noteq> [] then
            df\<lparr>columns := (if ''country_exploded'' \<in> set (columns df) then columns df
                           else columns df @ [''country_exploded'']),
               rows := concat (map (\<lambda>r. map (\<lambda>t. AList.update ''country_exploded'' t r)
                                 (filter (\<lambda>t. t \<in> set country_selected) (country_tokens r)))
                         (filter (row_retained content_type year_range) (rows df)))\<rparr>
          else df\<lparr>rows := filter (row_retained content_type year_range) (rows df)\<rparr>)"
proof (cases "country_selected = []")
  case True
  with assms show ?thesis
    by (simp add: filtered_df_def type_year_filter_filterable)
next
  case False
  let ?f = "df\<lparr>rows := filter (row_retained content_type year_range) (rows df)\<rparr>"
  let ?tmp = "?f\<lparr>columns := (if ''country_exploded'' \<in> set (columns ?f) then columns ?f
                           else columns ?f @ [''country_exploded'']),
              rows := concat (map (\<lambda>r. map (\<lambda>t. AList.update ''country_exploded'' t r)
                                          (country_tokens r)) (rows ?f))\<rparr>"
  have country: "get_column ?f ''country'' = Inr (map (\<lambda>r. cell_of r ''country'') (rows ?f))"
    using assms by (simp add: get_column_def filterable_def)
  have exploded: "get_column ?tmp ''country_exploded''
                    = Inr (map (\<lambda>r. cell_of r ''country_exploded'') (rows ?tmp))"
    by (simp add: get_column_def)
  have keep: "select_rows ?tmp (isin (map (\<lambda>r. cell_of r ''country_exploded'') (rows ?tmp))
                  country_selected)
        = ?tmp\<lparr>rows := filter (\<lambda>r. cell_of r ''country_exploded'' \<in> set country_selected)
                          (rows ?tmp)\<rparr>"
    using select_rows_map [of ?tmp "\<lambda>r. cell_of r ''country_exploded'' \<in> set country_selected"]
    by (simp add: isin_def o_def)
  have rows_eq: "filter (\<lambda>r. cell_of r ''country_exploded'' \<in> set country_selected) (rows ?tmp)
        = concat (map (\<lambda>r. map (\<lambda>t. AList.update ''country_exploded'' t r)
                                 (filter (\<lambda>t. t \<in> set country_selected) (country_tokens r)))
                         (rows ?f))"
    by (simp add: filter_concat filter_map o_def)
  show ?thesis
    unfolding filtered_df_def type_year_filter_filterable [OF assms]
    using False
    by (simp only: bind_result_Inr if_True if_False country explode_country_rows exploded keep
        rows_eq simp_thms) simp
qed

lemma cell_between_iff:
  "cell_between lo hi c \<longleftrightarrow> (\<exists>y. c = CInt y \<and> lo \<le> y \<and> y \<le> hi)"
  by (cases c) simp_all

lemma load_data_filterable:
  assumes "load_data parse raw = Inr df" and "''type'' \<in> set (columns raw)"
  shows "filterable df"
proof -
  have "numeric (cell_of (clean_row d r) ''year_added'')" for d r
    by (cases d) (simp_all add: clean_row_def cell_of_fill_unknown)
  with assms show ?thesis
    by (auto simp: load_data_iff filterable_def list_all_iff)
qed

lemma filterable_demo: "filterable demo_df"
  by code_simp

text \<open>
  C6. The first filtering step keeps a row exactly when its \<open>type\<close> is one of the
  selected content types and its \<open>year_added\<close> is an integer within the inclusive
  year range; with no content type selected nothing is kept, whatever the country
  selection, and the "Total Titles" counter is 0.
\<close>

theorem type_year_filter_retains:
  assumes "filterable df"
  shows "type_year_filter df content_type (lo, hi) =
           Inr (df\<lparr>rows := filter (\<lambda>r. cell_of r ''type'' \<in> set content_type \<and>
                                      (\<exists>y. cell_of r ''year_added'' = CInt y \<and> lo \<le> y \<and> y \<le> hi))
                                (rows df)\<rparr>) \<and>
         (\<exists>out. filtered_df df [] (lo, hi) country_selected = Inr out \<and>
                rows out = [] \<and> total_titles out = 0)"
proof -
  have "row_retained content_type (lo, hi) =
          (\<lambda>r. cell_of r ''type'' \<in> set content_type \<and>
               (\<exists>y. cell_of r ''year_added'' = CInt y \<and> lo \<le> y \<and> y \<le> hi))"
    by (rule ext) (simp add: row_retained_def cell_between_iff)
  then have first: "type_year_filter df content_type (lo, hi) =
           Inr (df\<lparr>rows := filter (\<lambda>r. cell_of r ''type'' \<in> set content_type \<and>
                                      (\<exists>y. cell_of r ''year_added'' = CInt y \<and> lo \<le> y \<and> y \<le> hi))
                                (rows df)\<rparr>)"
    using type_year_filter_filterable [OF assms, of content_type "(lo, hi)"] by simp
  have none: "filter (row_retained [] (lo, hi)) (rows df) = []"
    by (simp add: row_retained_def)
  have "\<exists>out. filtered_df df [] (lo, hi) country_selected = Inr out \<and>
                rows out = [] \<and> total_titles out = 0"
    by (simp add: filtered_df_filterable [OF assms] none total_titles_def)
  with first show ?thesis by blast
qed

lemma demo_cells:
  "cell_of demo_row1 ''type'' = CStr ''Movie''" "cell_of demo_row1 ''year_added'' = CInt 2018"
  "cell_of demo_row3 ''type'' = CStr ''TV Show''" "cell_of demo_row3 ''year_added'' = CInt 2020"
  "cell_of demo_row4 ''type'' = CStr ''Movie''" "cell_of demo_row4 ''year_added'' = CInt 2020"
  "cell_of demo_row5 ''type'' = CStr ''Movie''" "cell_of demo_row5 ''year_added'' = CInt 2021"
  by code_simp+

lemma demo_tokens:
  "country_tokens demo_row1 = [CStr ''India'', CStr ''Canada'']"
  "country_tokens demo_row3 = [CStr ''Unknown'']"
  "country_tokens demo_row4 = [CStr ''Brazil'']"
  "country_tokens demo_row5 = [CStr ''Canada'', CStr ''India'']"
  by code_simp+

lemma demo_rows: "rows demo_df = [demo_row1, demo_row3, demo_row4, demo_row5]"
  by (simp add: demo_df_def)

text \<open>
  C6 on the example: movies of 2018-2020 are the first and the third loaded row.
\<close>

theorem type_year_filter_retains_witness:
  "filterable demo_df \<and>
   type_year_filter demo_df [CStr ''Movie''] (2018, 2020) =
     Inr (demo_df\<lparr>rows := [demo_row1, demo_row4]\<rparr>) \<and>
   map_sum id total_titles (filtered_df demo_df [] (2018, 2020) [CStr ''Canada'']) = Inr 0"
proof -
  note retains = type_year_filter_retains [OF filterable_demo]
  have "type_year_filter demo_df [CStr ''Movie''] (2018, 2020) =
          Inr (demo_df\<lparr>rows := [demo_row1, demo_row4]\<rparr>)"
    using retains [of "[CStr ''Movie'']" 2018 2020] by (simp add: demo_rows demo_cells)
  moreover have "map_sum id total_titles (filtered_df demo_df [] (2018, 2020) [CStr ''Canada''])
                   = Inr 0"
    using retains [of "[]" 2018 2020 "[CStr ''Canada'']"] by auto
  ultimately show ?thesis
    using filterable_demo by simp
qed

text \<open>
  C1. With a non-empty country selection the output has, for every row kept by the
  type/year step and in the order of those rows, one row per entry of that row's exploded
  \<open>country\<close> that is in the selection: the source row with the entry stored in the column
  \<open>country_exploded\<close> and every other column as in the source row. A row with \<open>k\<close>
  matching entries therefore appears \<open>k\<close> times. For a string \<open>country\<close> the entries are
  its pieces between the separators ", ".
\<close>

theorem filtered_df_country_rows:
  assumes "filterable df" and "country_selected \<noteq> []"
  shows "\<exists>out. filtered_df df content_type year_range country_selected = Inr out \<and>
           rows out =
             concat (map (\<lambda>r. map (\<lambda>t. AList.update ''country_exploded'' t r)
                                 (filter (\<lambda>t. t \<in> set country_selected) (country_tokens r)))
                         (filter (row_retained content_type year_range) (rows df))) \<and>
           total_titles out =
             sum_list (map (\<lambda>r. length (filter (\<lambda>t. t \<in> set country_selected) (country_tokens r)))
                         (filter (row_retained content_type year_range) (rows df))) \<and>
           (\<forall>r t c. c \<noteq> ''country_exploded'' \<longrightarrow>
                    cell_of (AList.update ''country_exploded'' t r) c = cell_of r c) \<and>
           (\<forall>r s. cell_of r ''country'' = CStr s \<longrightarrow>
                  country_tokens r = map CStr (split_str '', '' s))"
  using assms
  by (simp add: filtered_df_filterable total_titles_def length_concat o_def country_tokens_str)

text \<open>
  C1 on the example: the first and the last row name both selected countries and appear
  twice each, the row from Brazil not at all.
\<close>

theorem filtered_df_country_rows_witness:
  "filterable demo_df \<and> [CStr ''Canada'', CStr ''India''] \<noteq> [] \<and>
   map_sum id rows (filtered_df demo_df [CStr ''Movie''] (2018, 2021)
                      [CStr ''Canada'', CStr ''India'']) =
     Inr [AList.update ''country_exploded'' (CStr ''India'') demo_row1,
          AList.update ''country_exploded'' (CStr ''Canada'') demo_row1,
          AList.update ''country_exploded'' (CStr ''Canada'') demo_row5,
          AList.update ''country_exploded'' (CStr ''India'') demo_row5]"
proof -
  have sel: "[CStr ''Canada'', CStr ''India''] \<noteq> []"
    by simp
  have kept: "filter (row_retained [CStr ''Movie''] (2018, 2021)) (rows demo_df) =
                [demo_row1, demo_row4, demo_row5]"
    by (simp add: demo_rows row_retained_def demo_cells)
  show ?thesis
    using filtered_df_country_rows [OF filterable_demo sel, of "[CStr ''Movie'']" "(2018, 2021)"]
      filterable_demo
    by (auto simp: kept demo_tokens)
qed

text \<open>
  C3 as stated fails: with a country selected, the output has the column
  \<open>country_exploded\<close>, which the input does not have.
\<close>

theorem filtered_df_adds_column:
  "filtered_df demo_df [CStr ''Movie''] (2018, 2021) [CStr ''Canada''] = Inr demo_canada \<and>
   columns demo_canada \<noteq> columns demo_df"
  by code_simp

text \<open>
  C3, amended. The output has the columns of the input when no country is selected; when
  one is, it has the columns of the input followed by \<open>country_exploded\<close> (line 74 adds it
  and nothing removes it).
\<close>

theorem filtered_df_columns:
  assumes "filterable df"
  shows "\<exists>out. filtered_df df content_type year_range country_selected = Inr out \<and>
           columns out =
             (if country_selected = [] \<or> ''country_exploded'' \<in> set (columns df)
              then columns df else columns df @ [''country_exploded''])"
  using assms by (simp add: filtered_df_filterable)

text \<open>
  C3 amended, on the example, without and with a country.
\<close>

theorem filtered_df_columns_witness:
  "filterable demo_df \<and>
   map_sum id columns (filtered_df demo_df [CStr ''Movie''] (2018, 2021) []) = Inr demo_columns \<and>
   map_sum id columns (filtered_df demo_df [CStr ''Movie''] (2018, 2021) [CStr ''Canada'']) =
     Inr (demo_columns @ [''country_exploded''])"
proof -
  have cols: "columns demo_df = demo_columns" "''country_exploded'' \<notin> set demo_columns"
    by (simp_all add: demo_df_def demo_columns_def)
  show ?thesis
    using filtered_df_columns [OF filterable_demo, of "[CStr ''Movie'']" "(2018, 2021)" "[]"]
      filtered_df_columns [OF filterable_demo, of "[CStr ''Movie'']" "(2018, 2021)" "[CStr ''Canada'']"]
      filterable_demo
    by (auto simp: cols)
qed

text \<open>
  C2 as stated fails: a content type that no row has, or a year range whose lower bound
  is above its upper bound, gives the empty frame, not an error.
\<close>

theorem filtered_df_invalid_selection_returns:
  "CStr ''Documentary'' \<notin> set (map (\<lambda>r. cell_of r ''type'') (rows demo_df)) \<and>
   filtered_df demo_df [CStr ''Documentary''] (2018, 2021) [] = Inr (demo_df\<lparr>rows := []\<rparr>) \<and>
   filtered_df demo_df [CStr ''Movie''] (2021, 2018) [] = Inr (demo_df\<lparr>rows := []\<rparr>)"
  by code_simp

text \<open>
  C2, amended. Lines 67-76 validate nothing: on every frame that has the columns they
  read (every loaded frame with a \<open>type\<close> column is one, \<open>load_data_filterable\<close>) and for
  every selection the filter returns a frame. An inverted year range keeps no row, and
  content types that no row has change nothing (the result is that of the selection
  without them).
\<close>

theorem filtered_df_never_fails:
  assumes "filterable df"
  shows "\<exists>out. filtered_df df content_type (lo, hi) country_selected = Inr out \<and>
           (hi < lo \<longrightarrow> rows out = []) \<and>
           filtered_df df (filter (\<lambda>c. c \<in> set (map (\<lambda>r. cell_of r ''type'') (rows df)))
                             content_type) (lo, hi) country_selected = Inr out"
proof -
  let ?known = "filter (\<lambda>c. c \<in> set (map (\<lambda>r. cell_of r ''type'') (rows df))) content_type"
  have inverted: "filter (row_retained content_type (lo, hi)) (rows df) = []" if "hi < lo"
    using that by (auto simp: row_retained_def cell_between_iff filter_empty_conv)
  have same: "filter (row_retained ?known (lo, hi)) (rows df) =
              filter (row_retained content_type (lo, hi)) (rows df)"
    by (rule filter_cong) (auto simp: row_retained_def)
  show ?thesis
    unfolding filtered_df_filterable [OF assms] same
    using inverted by simp
qed

text \<open>
  C2 amended, on the example.
\<close>

theorem filtered_df_never_fails_witness:
  "filterable demo_df \<and>
   filtered_df demo_df [CStr ''Movie''] (2021, 2018) [] = Inr (demo_df\<lparr>rows := []\<rparr>) \<and>
   filtered_df demo_df [CStr ''Documentary'', CStr ''TV Show''] (2018, 2021) [] =
     filtered_df demo_df [CStr ''TV Show''] (2018, 2021) []"
proof -
  have types: "map (\<lambda>r. cell_of r ''type'') (rows demo_df) =
                 [CStr ''Movie'', CStr ''TV Show'', CStr ''Movie'', CStr ''Movie'']"
    by (simp add: demo_rows demo_cells)
  have "filtered_df demo_df [CStr ''Movie''] (2021, 2018) [] = Inr (demo_df\<lparr>rows := []\<rparr>)"
    using filtered_df_never_fails [OF filterable_demo, of "[CStr ''Movie'']" 2021 2018 "[]"]
    by (auto simp: filtered_df_filterable [OF filterable_demo])
  moreover have "filtered_df demo_df [CStr ''Documentary'', CStr ''TV Show''] (2018, 2021) [] =
     filtered_df demo_df [CStr ''TV Show''] (2018, 2021) []"
    using filtered_df_never_fails [OF filterable_demo, of "[CStr ''Documentary'', CStr ''TV Show'']"
        2018 2021 "[]"]
    by (auto simp: types)
  ultimately show ?thesis
    using filterable_demo by simp
qed

section \<open>Counting values\<close>

text \<open>
  The counting pass keeps one entry per value, in the order the values are first seen,
  and counts every occurrence.
\<close>

lemma count_insert_keys:
  "map fst (count_insert k kvs) = (if k \<in> fst ` set kvs then map fst kvs else map fst kvs @ [k])"
  by (induction kvs) force+

lemma count_insert_map_of:
  "map_of (count_insert k kvs) =
     (map_of kvs)(k \<mapsto> (case map_of kvs k of None \<Rightarrow> 1 | Some n \<Rightarrow> Suc n))"
  by (induction kvs) (auto simp: fun_eq_iff)

lemma count_values_snoc: "count_values (xs @ [x]) = count_insert x (count_values xs)"
  by (simp add: count_values_def)

lemma count_values_keys_set: "fst ` set (count_values xs) = set xs"
proof (induction xs rule: rev_induct)
  case Nil
  show ?case by (simp add: count_values_def)
next
  case (snoc x xs)
  have "fst ` set (count_insert x (count_values xs)) = set (map fst (count_insert x (count_values xs)))"
    by simp
  also have "\<dots> = insert x (set xs)"
    unfolding count_insert_keys using snoc by auto
  finally show ?case by (simp add: count_values_snoc)
qed

lemma first_index_snoc:
  "k \<in> set xs \<Longrightarrow> first_index (xs @ [x]) k = first_index xs k"
  by (induction xs) auto

lemma first_index_new:
  "k \<notin> set xs \<Longrightarrow> first_index (xs @ [k]) k = length xs"
  by (induction xs) auto

lemma first_index_less: "k \<in> set xs \<Longrightarrow> first_index xs k < length xs"
  by (induction xs) auto

lemma count_values_keys_order:
  "sorted_wrt (\<lambda>a b. first_index xs a < first_index xs b) (map fst (count_values xs))"
proof (induction xs rule: rev_induct)
  case Nil
  show ?case by (simp add: count_values_def)
next
  case (snoc x xs)
  let ?keys = "map fst (count_values xs)"
  have old: "sorted_wrt (\<lambda>a b. first_index (xs @ [x]) a < first_index (xs @ [x]) b) ?keys"
    using snoc
    by (rule sorted_wrt_mono_rel [rotated]) (simp add: first_index_snoc count_values_keys_set)
  show ?case
  proof (cases "x \<in> set xs")
    case True
    with old show ?thesis
      by (simp add: count_values_snoc count_insert_keys count_values_keys_set)
  next
    case False
    have "\<forall>a \<in> set ?keys. first_index (xs @ [x]) a < first_index (xs @ [x]) x"
      using False
      by (simp add: count_values_keys_set first_index_snoc first_index_new first_index_less)
    with old False show ?thesis
      by (simp add: count_values_snoc count_insert_keys count_values_keys_set sorted_wrt_append)
  qed
qed

lemma count_values_keys_distinct: "distinct (map fst (count_values xs))"
proof -
  have "distinct ks" if "sorted_wrt (\<lambda>a b. first_index xs a < first_index xs b) ks" for ks
    using that by (induction ks) auto
  then show ?thesis
    using count_values_keys_order by blast
qed

lemma count_values_map_of:
  "map_of (count_values xs) k = (if k \<in> set xs then Some (count_list xs k) else None)"
proof (induction xs arbitrary: k rule: rev_induct)
  case Nil
  show ?case by (simp add: count_values_def)
next
  case (snoc x xs)
  have "count_list xs x = 0" if "x \<notin> set xs"
    using that by (simp add: count_list_0_iff)
  with snoc show ?case
    by (simp add: count_values_snoc count_insert_map_of)
qed

lemma count_values_counts:
  "(k, n) \<in> set (count_values xs) \<Longrightarrow> n = count_list xs k"
  using count_values_map_of [of xs k] count_values_keys_distinct [of xs]
  by (auto split: if_splits)

text \<open>
  A stable sort of a list that is ordered by \<open>R\<close> orders equal keys by \<open>R\<close>.
\<close>

lemma insort_key_stable_wrt:
  assumes "sorted_wrt (\<lambda>a b. f a < f b \<or> (f a = f b \<and> R a b)) ys" and "\<forall>y \<in> set ys. R x y"
  shows "sorted_wrt (\<lambda>a b. f a < f b \<or> (f a = f b \<and> R a b)) (insort_key f x ys)"
  using assms
proof (induction ys)
  case Nil
  then show ?case by simp
next
  case (Cons y ys)
  show ?case
  proof (cases "f x \<le> f y")
    case True
    with Cons.prems show ?thesis by (auto simp: order.strict_iff_order)
  next
    case False
    with Cons show ?thesis by (auto simp: set_insort_key)
  qed
qed

lemma sort_key_stable_wrt:
  fixes f :: "'a \<Rightarrow> 'b::linorder"
  assumes "sorted_wrt R xs"
  shows "sorted_wrt (\<lambda>a b. f a < f b \<or> (f a = f b \<and> R a b)) (sort_key f xs)"
  using assms
proof (induction xs)
  case Nil
  show ?case by simp
next
  case (Cons x xs)
  then show ?case
    by (simp add: insort_key_stable_wrt)
qed

text \<open>Both example sorts sort by count.\<close>

lemma stable_count_sort_sorts: "sorts_by_count stable_count_sort"
proof -
  have "sorted_wrt (\<lambda>a b. snd b \<le> snd a) (sort_key (\<lambda>(k, n). - int n) tbl)"
    for tbl :: "(cell \<times> nat) list"
  proof -
    have "sorted (map (\<lambda>(k, n). - int n) (sort_key (\<lambda>(k, n). - int n) tbl))"
      by (rule sorted_sort_key)
    then show ?thesis
      by (simp add: sorted_map case_prod_unfold)
  qed
  then show ?thesis
    by (simp add: sorts_by_count_def stable_count_sort_def)
qed


text \<open>
  Whatever the sort does with equal counts, \<open>value_counts\<close> has one entry per value, with
  the number of its occurrences, and no entry before one with a larger count.
\<close>

lemma value_counts_mset:
  "sorts_by_count sort_desc \<Longrightarrow>
     mset (value_counts sort_desc col) = mset (count_values (filter (\<lambda>c. c \<noteq> CNull) col))"
  by (simp add: value_counts_def sorts_by_count_def)

lemma value_counts_set:
  "sorts_by_count sort_desc \<Longrightarrow>
     set (value_counts sort_desc col) = set (count_values (filter (\<lambda>c. c \<noteq> CNull) col))"
  by (rule mset_eq_setD) (rule value_counts_mset)

lemma value_counts_keys_distinct:
  assumes "sorts_by_count sort_desc"
  shows "distinct (map fst (value_counts sort_desc col))"
proof -
  have "mset (map fst (value_counts sort_desc col)) =
          mset (map fst (count_values (filter (\<lambda>c. c \<noteq> CNull) col)))"
    using value_counts_mset [OF assms, of col] by simp
  then have "distinct (map fst (value_counts sort_desc col)) \<longleftrightarrow>
               distinct (map fst (count_values (filter (\<lambda>c. c \<noteq> CNull) col)))"
    by (rule mset_eq_imp_distinct_iff)
  then show ?thesis
    using count_values_keys_distinct [of "filter (\<lambda>c. c \<noteq> CNull) col"] by blast
qed

lemma value_counts_keys_set:
  "sorts_by_count sort_desc \<Longrightarrow>
     set (map fst (value_counts sort_desc col)) = set (filter (\<lambda>c. c \<noteq> CNull) col)"
  using count_values_keys_set [of "filter (\<lambda>c. c \<noteq> CNull) col"]
  by (simp add: value_counts_set)

lemma value_counts_counts:
  assumes "sorts_by_count sort_desc"
  shows "value_counts sort_desc col =
     map (\<lambda>k. (k, count_list (filter (\<lambda>c. c \<noteq> CNull) col) k))
       (map fst (value_counts sort_desc col))"
proof -
  have "p = (fst p, count_list (filter (\<lambda>c. c \<noteq> CNull) col) (fst p))"
    if "p \<in> set (value_counts sort_desc col)" for p
  proof -
    from that have "(fst p, snd p) \<in> set (count_values (filter (\<lambda>c. c \<noteq> CNull) col))"
      by (simp add: value_counts_set [OF assms])
    then have "snd p = count_list (filter (\<lambda>c. c \<noteq> CNull) col) (fst p)"
      by (rule count_values_counts)
    then show ?thesis
      by (simp add: prod_eq_iff)
  qed
  then have "map (\<lambda>p. (fst p, count_list (filter (\<lambda>c. c \<noteq> CNull) col) (fst p)))
               (value_counts sort_desc col) = value_counts sort_desc col"
    by (simp add: map_idI)
  then show ?thesis
    by (simp add: o_def)
qed

lemma value_counts_descending:
  assumes "sorts_by_count sort_desc"
  shows "sorted_wrt (\<lambda>a b. count_list (filter (\<lambda>c. c \<noteq> CNull) col) b
                          \<le> count_list (filter (\<lambda>c. c \<noteq> CNull) col) a)
           (map fst (value_counts sort_desc col))"
proof -
  let ?xs = "filter (\<lambda>c. c \<noteq> CNull) col"
  have "sorted_wrt (\<lambda>a b. snd b \<le> snd a) (value_counts sort_desc col)"
    using assms by (simp add: value_counts_def sorts_by_count_def)
  then have "sorted_wrt (\<lambda>a b. snd b \<le> snd a)
               (map (\<lambda>k. (k, count_list ?xs k)) (map fst (value_counts sort_desc col)))"
    by (simp only: value_counts_counts [OF assms, symmetric])
  then show ?thesis
    by (simp add: sorted_wrt_map)
qed

text \<open>
  With the stable sort, values with equal counts are in first-seen order: the order the
  specification names.
\<close>

lemma value_counts_stable_ranked:
  "sorted_wrt (ranks_before (filter (\<lambda>c. c \<noteq> CNull) col))
     (map fst (value_counts stable_count_sort col))"
proof -
  let ?xs = "filter (\<lambda>c. c \<noteq> CNull) col"
  let ?f = "\<lambda>(k, n). - int n" and ?R = "\<lambda>a b. first_index ?xs (fst a) < first_index ?xs (fst b)"
  have "sorted_wrt ?R (count_values ?xs)"
    using count_values_keys_order [of ?xs] by (simp add: sorted_wrt_map)
  then have "sorted_wrt (\<lambda>a b. ?f a < ?f b \<or> (?f a = ?f b \<and> ?R a b))
               (value_counts stable_count_sort col)"
    unfolding value_counts_def stable_count_sort_def by (rule sort_key_stable_wrt)
  then have "sorted_wrt (\<lambda>a b. ranks_before ?xs (fst a) (fst b)) (value_counts stable_count_sort col)"
  proof (rule sorted_wrt_mono_rel [rotated])
    fix a b
    assume "a \<in> set (value_counts stable_count_sort col)"
      "b \<in> set (value_counts stable_count_sort col)"
      and "?f a < ?f b \<or> (?f a = ?f b \<and> ?R a b)"
    then show "ranks_before ?xs (fst a) (fst b)"
      using count_values_counts [of "fst a" "snd a" ?xs] count_values_counts [of "fst b" "snd b" ?xs]
      by (auto simp: value_counts_set [OF stable_count_sort_sorts] ranks_before_def
          split: prod.splits)
  qed
  then show ?thesis
    by (simp add: sorted_wrt_map)
qed

lemma token_counts_Inr:
  "c \<in> set (columns df) \<Longrightarrow>
     token_counts sort_desc df c =
       Inr (value_counts sort_desc
              (explode_series (str_split '', '' (map (\<lambda>r. cell_of r c) (rows df)))))"
  by (simp add: token_counts_def get_column_def)

lemma token_counts_ranked:
  assumes "sorts_by_count sort_desc" and "c \<in> set (columns df)"
  shows "\<exists>ranked. token_counts sort_desc df c =
                    Inr (map (\<lambda>k. (k, count_list (column_tokens df c) k)) ranked) \<and>
           distinct ranked \<and> set ranked = set (column_tokens df c) \<and>
           sorted_wrt (\<lambda>a b. count_list (column_tokens df c) b \<le> count_list (column_tokens df c) a)
             ranked"
proof -
  let ?col = "explode_series (str_split '', '' (map (\<lambda>r. cell_of r c) (rows df)))"
  let ?ranked = "map fst (value_counts sort_desc ?col)"
  have "token_counts sort_desc df c =
          Inr (map (\<lambda>k. (k, count_list (column_tokens df c) k)) ?ranked)"
    using value_counts_counts [OF assms(1), of ?col]
    by (simp add: token_counts_Inr [OF assms(2)] column_tokens_def)
  moreover have "distinct ?ranked"
    using assms(1) by (rule value_counts_keys_distinct)
  moreover have "set ?ranked = set (column_tokens df c)"
    by (simp only: value_counts_keys_set [OF assms(1)] column_tokens_def)
  moreover have "sorted_wrt (\<lambda>a b. count_list (column_tokens df c) b
                                  \<le> count_list (column_tokens df c) a) ?ranked"
    unfolding column_tokens_def using assms(1) by (rule value_counts_descending)
  ultimately show ?thesis by blast
qed

lemma demo_country_column: "''country'' \<in> set (columns demo_df)"
  by code_simp




text \<open>
  C7 as stated fails: "PG" is the first rating of the example and "TV-MA" the second, but
  the table lists "TV-MA", which occurs twice, before "PG", under the stable sort and
  under the one that turns equal counts round.
\<close>

theorem rating_counts_not_first_seen:
  "column_values demo_df ''rating'' =
     [CStr ''PG'', CStr ''TV-MA'', CStr ''TV-MA'', CStr ''Unknown''] \<and>
   rating_counts stable_count_sort demo_df =
     Inr [(CStr ''TV-MA'', 2), (CStr ''PG'', 1), (CStr ''Unknown'', 1)] \<and>
   rating_counts reversing_count_sort demo_df =
     Inr [(CStr ''TV-MA'', 2), (CStr ''Unknown'', 1), (CStr ''PG'', 1)]"
  by code_simp

text \<open>
  C7, amended. For every sort by count, the rating table has one entry per distinct rating
  of the filtered frame, with the number of rows of that rating, and no entry before one
  with a larger count; the order of ratings with equal counts is the sort's.
\<close>

theorem rating_counts_ranked:
  assumes "sorts_by_count sort_desc" and "''rating'' \<in> set (columns fdf)"
  shows "\<exists>ranked. rating_counts sort_desc fdf =
                    Inr (map (\<lambda>k. (k, count_list (column_values fdf ''rating'') k)) ranked) \<and>
           distinct ranked \<and> set ranked = set (column_values fdf ''rating'') \<and>
           sorted_wrt (\<lambda>a b. count_list (column_values fdf ''rating'') b
                              \<le> count_list (column_values fdf ''rating'') a) ranked"
proof -
  let ?col = "map (\<lambda>r. cell_of r ''rating'') (rows fdf)"
  let ?ranked = "map fst (value_counts sort_desc ?col)"
  have "rating_counts sort_desc fdf =
          Inr (map (\<lambda>k. (k, count_list (column_values fdf ''rating'') k)) ?ranked)"
    using assms(2) value_counts_counts [OF assms(1), of ?col]
    by (simp add: rating_counts_def get_column_def column_values_def)
  moreover have "distinct ?ranked"
    using assms(1) by (rule value_counts_keys_distinct)
  moreover have "set ?ranked = set (column_values fdf ''rating'')"
    by (simp only: value_counts_keys_set [OF assms(1)] column_values_def)
  moreover have "sorted_wrt (\<lambda>a b. count_list (column_values fdf ''rating'') b
                                  \<le> count_list (column_values fdf ''rating'') a) ?ranked"
    unfolding column_values_def using assms(1) by (rule value_counts_descending)
  ultimately show ?thesis by blast
qed

lemma demo_rating_column: "''rating'' \<in> set (columns demo_df)"
  by code_simp

text \<open>
  C7 amended, on the example.
\<close>

theorem rating_counts_ranked_witness:
  "sorts_by_count stable_count_sort \<and> ''rating'' \<in> set (columns demo_df) \<and>
   rating_counts stable_count_sort demo_df =
     Inr [(CStr ''TV-MA'', 2), (CStr ''PG'', 1), (CStr ''Unknown'', 1)]"
proof -
  have "rating_counts stable_count_sort demo_df =
          Inr [(CStr ''TV-MA'', 2), (CStr ''PG'', 1), (CStr ''Unknown'', 1)]"
    by code_simp
  then show ?thesis
    using rating_counts_ranked [OF stable_count_sort_sorts demo_rating_column]
      stable_count_sort_sorts demo_rating_column
    by simp
qed

lemma top_n_table:
  assumes "sorts_by_count sort_desc" and "c \<in> set (columns df)"
  shows "\<exists>top. bind_result (token_counts sort_desc df c)
                  (\<lambda>counts. Inr (take n (drop_index [CStr ''Unknown''] counts))) =
                Inr (map (\<lambda>k. (k, count_list (column_tokens df c) k)) top) \<and>
           length top \<le> n \<and> CStr ''Unknown'' \<notin> set top \<and>
           sorted_wrt (\<lambda>a b. count_list (column_tokens df c) b \<le> count_list (column_tokens df c) a) top \<and>
           (\<forall>k \<in> set (column_tokens df c). k = CStr ''Unknown'' \<or> k \<in> set top \<or>
              (length top = n \<and>
               (\<forall>a \<in> set top. count_list (column_tokens df c) k \<le> count_list (column_tokens df c) a)))"
proof -
  let ?toks = "column_tokens df c"
  let ?desc = "\<lambda>a b. count_list ?toks b \<le> count_list ?toks a"
  from token_counts_ranked [OF assms] obtain ranked where
    counts: "token_counts sort_desc df c = Inr (map (\<lambda>k. (k, count_list ?toks k)) ranked)"
    and ranked: "set ranked = set ?toks" "sorted_wrt ?desc ranked"
    by blast
  let ?known = "filter (\<lambda>k. k \<noteq> CStr ''Unknown'') ranked"
  let ?top = "take n ?known"
  have table: "bind_result (token_counts sort_desc df c)
                  (\<lambda>counts. Inr (take n (drop_index [CStr ''Unknown''] counts))) =
                Inr (map (\<lambda>k. (k, count_list ?toks k)) ?top)"
    by (simp add: counts drop_index_def filter_map o_def take_map)
  have desc_known: "sorted_wrt ?desc ?known"
    using ranked(2) by (rule sorted_wrt_filter)
  then have desc: "sorted_wrt ?desc ?top"
    by (rule sorted_wrt_take)
  have unknown: "CStr ''Unknown'' \<notin> set ?top"
    using set_take_subset [of n ?known] by auto
  have rest: "k = CStr ''Unknown'' \<or> k \<in> set ?top \<or>
              (length ?top = n \<and> (\<forall>a \<in> set ?top. count_list ?toks k \<le> count_list ?toks a))"
    if "k \<in> set ?toks" for k
  proof (cases "k = CStr ''Unknown'' \<or> k \<in> set ?top")
    case True
    then show ?thesis by blast
  next
    case False
    with that ranked(1) have "k \<in> set ?known" by simp
    then have "k \<in> set (take n ?known) \<union> set (drop n ?known)"
      by (simp only: set_append [symmetric] append_take_drop_id)
    with False have later: "k \<in> set (drop n ?known)" by simp
    then have "n < length ?known"
      by (cases "n < length ?known") simp_all
    then have full: "length ?top = n" by simp
    have "sorted_wrt ?desc (take n ?known @ drop n ?known)"
      using desc_known by simp
    then have "\<forall>a \<in> set ?top. count_list ?toks k \<le> count_list ?toks a"
      using later unfolding sorted_wrt_append by blast
    with full show ?thesis by blast
  qed
  have "length ?top \<le> n" by simp
  with table unknown desc rest show ?thesis by blast
qed

text \<open>
  C8. For every sort by count, the tables of lines 112-117 and 128-133 have at most 10 and
  at most 12 entries; each entry is a token of the split column with the number of its
  occurrences; the entries are in descending order of count; "Unknown" is not among them;
  and a token that is left out is no more frequent than any entry.
\<close>

theorem top_countries_top_genres:
  assumes "sorts_by_count sort_desc"
    and "''country'' \<in> set (columns fdf)" and "''listed_in'' \<in> set (columns fdf)"
  shows "\<exists>countries genres.
           top_countries sort_desc fdf = Inr countries \<and> top_genres sort_desc fdf = Inr genres \<and>
           length countries \<le> 10 \<and> length genres \<le> 12 \<and>
           map snd countries = map (count_list (column_tokens fdf ''country'')) (map fst countries) \<and>
           map snd genres = map (count_list (column_tokens fdf ''listed_in'')) (map fst genres) \<and>
           sorted_wrt (\<lambda>a b. snd b \<le> snd a) countries \<and>
           sorted_wrt (\<lambda>a b. snd b \<le> snd a) genres \<and>
           CStr ''Unknown'' \<notin> fst ` set countries \<and> CStr ''Unknown'' \<notin> fst ` set genres \<and>
           most_frequent 10 (column_tokens fdf ''country'') countries \<and>
           most_frequent 12 (column_tokens fdf ''listed_in'') genres"
proof -
  have table: "length tbl \<le> n \<and> map snd tbl = map (count_list toks) (map fst tbl) \<and>
               sorted_wrt (\<lambda>a b. snd b \<le> snd a) tbl \<and> CStr ''Unknown'' \<notin> fst ` set tbl \<and>
               most_frequent n toks tbl"
    if "tbl = map (\<lambda>k. (k, count_list toks k)) top" "length top \<le> n" "CStr ''Unknown'' \<notin> set top"
      "sorted_wrt (\<lambda>a b. count_list toks b \<le> count_list toks a) top"
      "\<forall>k \<in> set toks. k = CStr ''Unknown'' \<or> k \<in> set top \<or>
              (length top = n \<and> (\<forall>a \<in> set top. count_list toks k \<le> count_list toks a))"
    for tbl top toks n
    using that by (auto simp: o_def sorted_wrt_map most_frequent_def image_iff)
  from top_n_table [OF assms(1,2), of 10] obtain tc where
    tc: "top_countries sort_desc fdf =
           Inr (map (\<lambda>k. (k, count_list (column_tokens fdf ''country'') k)) tc)"
    and tc_props: "length tc \<le> 10" "CStr ''Unknown'' \<notin> set tc"
      "sorted_wrt (\<lambda>a b. count_list (column_tokens fdf ''country'') b
                        \<le> count_list (column_tokens fdf ''country'') a) tc"
      "\<forall>k \<in> set (column_tokens fdf ''country''). k = CStr ''Unknown'' \<or> k \<in> set tc \<or>
              (length tc = 10 \<and> (\<forall>a \<in> set tc. count_list (column_tokens fdf ''country'') k
                                               \<le> count_list (column_tokens fdf ''country'') a))"
    unfolding top_countries_def by blast
  from top_n_table [OF assms(1,3), of 12] obtain tg where
    tg: "top_genres sort_desc fdf =
           Inr (map (\<lambda>k. (k, count_list (column_tokens fdf ''listed_in'') k)) tg)"
    and tg_props: "length tg \<le> 12" "CStr ''Unknown'' \<notin> set tg"
      "sorted_wrt (\<lambda>a b. count_list (column_tokens fdf ''listed_in'') b
                        \<le> count_list (column_tokens fdf ''listed_in'') a) tg"
      "\<forall>k \<in> set (column_tokens fdf ''listed_in''). k = CStr ''Unknown'' \<or> k \<in> set tg \<or>
              (length tg = 12 \<and> (\<forall>a \<in> set tg. count_list (column_tokens fdf ''listed_in'') k
                                               \<le> count_list (column_tokens fdf ''listed_in'') a))"
    unfolding top_genres_def by blast
  from table [OF refl tc_props] table [OF refl tg_props] tc tg
  show ?thesis by blast
qed

lemma demo_listed_in_column: "''listed_in'' \<in> set (columns demo_df)"
  by code_simp

text \<open>
  C8 on the example: "Unknown" is a country token and a genre token of the example and is
  in neither table.
\<close>

theorem top_countries_top_genres_witness:
  "sorts_by_count stable_count_sort \<and>
   ''country'' \<in> set (columns demo_df) \<and> ''listed_in'' \<in> set (columns demo_df) \<and>
   top_countries stable_count_sort demo_df =
     Inr [(CStr ''India'', 2), (CStr ''Canada'', 2), (CStr ''Brazil'', 1)] \<and>
   top_genres stable_count_sort demo_df = Inr [(CStr ''Dramas'', 3), (CStr ''Comedies'', 1)]"
proof -
  have "top_countries stable_count_sort demo_df =
          Inr [(CStr ''India'', 2), (CStr ''Canada'', 2), (CStr ''Brazil'', 1)]"
    by code_simp
  moreover have "top_genres stable_count_sort demo_df =
                   Inr [(CStr ''Dramas'', 3), (CStr ''Comedies'', 1)]"
    by code_simp
  ultimately show ?thesis
    using top_countries_top_genres [OF stable_count_sort_sorts demo_country_column
        demo_listed_in_column]
      stable_count_sort_sorts demo_country_column demo_listed_in_column
    by simp
qed

section \<open>The broadest selection\<close>

lemma unique_set: "set (unique xs) = set xs"
proof -
  have "set (foldl (\<lambda>seen c. if c \<in> set seen then seen else seen @ [c]) acc xs) = set acc \<union> set xs"
    for acc
    by (induction xs arbitrary: acc) auto
  then show ?thesis by (simp add: unique_def)
qed

lemma strings_of_length: "length (strings_of cs) \<le> length cs"
  by (induction cs rule: strings_of.induct) simp_all

lemma strings_of_all: "length (strings_of cs) = length cs \<Longrightarrow> map CStr (strings_of cs) = cs"
proof (induction cs)
  case Nil
  show ?case by simp
next
  case (Cons c cs)
  then show ?case
    using strings_of_length [of cs] by (cases c) auto
qed

lemma ints_of_length: "length (ints_of cs) \<le> length cs"
  by (induction cs rule: ints_of.induct) simp_all

lemma ints_of_all: "length (ints_of cs) = length cs \<Longrightarrow> map CInt (ints_of cs) = cs"
proof (induction cs)
  case Nil
  show ?case by simp
next
  case (Cons c cs)
  then show ?case
    using ints_of_length [of cs] by (cases c) auto
qed

lemma sorted_cells_set: "sorted_cells cs = Inr ys \<Longrightarrow> set ys = set cs"
proof -
  assume a: "sorted_cells cs = Inr ys"
  show ?thesis
  proof (cases "length (strings_of cs) = length cs")
    case True
    with a have "set ys = set (map CStr (strings_of cs))"
      by (auto simp: sorted_cells_def)
    with True show ?thesis by (simp only: strings_of_all)
  next
    case False
    with a have len: "length (ints_of cs) = length cs"
      by (auto simp: sorted_cells_def split: if_splits)
    with a False have "set ys = set (map CInt (ints_of cs))"
      by (auto simp: sorted_cells_def)
    with len show ?thesis by (simp only: ints_of_all)
  qed
qed

lemma content_type_options_set:
  assumes "content_type_options df = Inr cts"
  shows "''type'' \<in> set (columns df) \<and> set cts = set (column_values df ''type'')"
  using assms sorted_cells_set [of "unique (column_values df ''type'')" cts]
  by (auto simp: content_type_options_def bind_result_eq_Inr get_column_Inr unique_set
      column_values_def)

lemma ints_of_member: "CInt y \<in> set col \<Longrightarrow> y \<in> set (ints_of col)"
  by (induction col rule: ints_of.induct) auto

lemma series_min_le:
  assumes "series_min col = Inr lo" and "CInt y \<in> set col"
  shows "lo \<le> y"
proof -
  from assms(1) obtain z zs where zs: "ints_of col = z # zs" and lo: "lo = fold min zs z"
    by (auto simp: series_min_def split: if_splits list.splits)
  have "lo = Min (set (z # zs))"
    unfolding lo by (rule Min.set_eq_fold [symmetric])
  moreover have "y \<in> set (z # zs)"
    using ints_of_member [OF assms(2)] zs by simp
  ultimately show ?thesis by simp
qed

lemma series_max_ge:
  assumes "series_max col = Inr hi" and "CInt y \<in> set col"
  shows "y \<le> hi"
proof -
  from assms(1) obtain z zs where zs: "ints_of col = z # zs" and hi: "hi = fold max zs z"
    by (auto simp: series_max_def split: if_splits list.splits)
  have "hi = Max (set (z # zs))"
    unfolding hi by (rule Max.set_eq_fold [symmetric])
  moreover have "y \<in> set (z # zs)"
    using ints_of_member [OF assms(2)] zs by simp
  ultimately show ?thesis by simp
qed

text \<open>
  C10 as stated fails: a row without a \<open>type\<close> is loaded (the loader only requires a
  date), the content types offered by line 37 leave the missing value out, and the filter
  with every offered type and the full year range drops that row.
\<close>

theorem broadest_selection_drops_untyped:
  "load_data demo_parse demo_untyped_csv = Inr demo_untyped \<and>
   content_type_options demo_untyped = Inr [CStr ''Movie''] \<and>
   min_year demo_untyped = Inr 2018 \<and> max_year demo_untyped = Inr 2020 \<and>
   total_titles demo_untyped = 2 \<and>
   map_sum id total_titles (filtered_df demo_untyped [CStr ''Movie''] (2018, 2020) []) = Inr 1 \<and>
   filtered_df demo_untyped [CStr ''Movie''] (2018, 2020) [] \<noteq> Inr demo_untyped"
  by code_simp

text \<open>
  C10, amended. On a loaded frame in which no row lacks its \<open>type\<close>, the selection of
  every content type of line 37, of the year range from \<open>min_year\<close> to \<open>max_year\<close> (lines
  41-42, which exist when the frame has a row) and of no country returns the frame as it
  is: the same columns and the same rows in the same order.
\<close>

theorem broadest_selection_identity:
  assumes "load_data parse raw = Inr df"
    and "content_type_options df = Inr content_type"
    and "min_year df = Inr lo" and "max_year df = Inr hi"
    and "\<forall>r \<in> set (rows df). cell_of r ''type'' \<noteq> CNull"
  shows "filtered_df df content_type (lo, hi) [] = Inr df"
proof -
  from assms(2) have type: "''type'' \<in> set (columns df)"
    and cts: "set content_type = set (column_values df ''type'')"
    using content_type_options_set by blast+
  from assms(1) type have "''type'' \<in> set (columns raw)"
    by (auto simp: load_data_iff split: if_splits)
  with assms(1) have filterable: "filterable df"
    by (rule load_data_filterable)
  from assms(3) have lo: "series_min (map (\<lambda>r. cell_of r ''year_added'') (rows df)) = Inr lo"
    by (auto simp: min_year_def bind_result_eq_Inr get_column_Inr)
  from assms(4) have hi: "series_max (map (\<lambda>r. cell_of r ''year_added'') (rows df)) = Inr hi"
    by (auto simp: max_year_def bind_result_eq_Inr get_column_Inr)
  have "row_retained content_type (lo, hi) r" if r: "r \<in> set (rows df)" for r
  proof -
    from load_data_row_cells [OF assms(1) r] obtain y where y: "cell_of r ''year_added'' = CInt y"
      by blast
    with r have "CInt y \<in> set (map (\<lambda>r. cell_of r ''year_added'') (rows df))"
      by force
    then have "lo \<le> y" "y \<le> hi"
      using series_min_le [OF lo] series_max_ge [OF hi] by blast+
    moreover have "cell_of r ''type'' \<in> set content_type"
      using r assms(5) by (simp add: cts column_values_def)
    ultimately show ?thesis
      by (simp add: row_retained_def y)
  qed
  then have "filter (row_retained content_type (lo, hi)) (rows df) = rows df"
    by (simp add: filter_id_conv)
  then show ?thesis
    by (simp add: filtered_df_filterable [OF filterable])
qed

text \<open>
  C10 amended, on the example.
\<close>

theorem broadest_selection_identity_witness:
  "load_data demo_parse demo_csv = Inr demo_df \<and>
   content_type_options demo_df = Inr [CStr ''Movie'', CStr ''TV Show''] \<and>
   min_year demo_df = Inr 2018 \<and> max_year demo_df = Inr 2021 \<and>
   list_all (\<lambda>r. cell_of r ''type'' \<noteq> CNull) (rows demo_df) \<and>
   filtered_df demo_df [CStr ''Movie'', CStr ''TV Show''] (2018, 2021) [] = Inr demo_df"
proof -
  have opts: "content_type_options demo_df = Inr [CStr ''Movie'', CStr ''TV Show'']"
    by code_simp
  have lo: "min_year demo_df = Inr 2018" and hi: "max_year demo_df = Inr 2021"
    by code_simp+
  have typed: "\<forall>r \<in> set (rows demo_df). cell_of r ''type'' \<noteq> CNull"
    by (simp add: demo_rows demo_cells)
  from broadest_selection_identity [OF load_demo opts lo hi typed] load_demo opts lo hi typed
  show ?thesis
    by (simp add: list_all_iff)
qed

section \<open>Running the filter twice\<close>

text \<open>
  Run on a store, lines 67-76 leave the object of \<^verbatim>\<open>df\<close> as it is and bind
  \<^verbatim>\<open>filtered_df\<close> to the frame that \<open>filtered_df\<close> computes from \<^verbatim>\<open>df\<close> and the
  selection: the in-place assignment of line 74 touches the copy made on line 73 only.
\<close>

lemma assign_filtered_df_pure:
  assumes "deref s (var_df s) = Inr df"
  shows "assign_filtered_df content_type year_range s =
           (case type_year_filter df content_type year_range of
              Inl e \<Rightarrow> Inl e
            | Inr selected \<Rightarrow>
                Inr (s\<lparr>frames := frames s @ [selected],
                       var_filtered_df := Some (length (frames s))\<rparr>))"
  using assms by (simp add: assign_filtered_df_def bind_result_def)

lemma explode_countries_pure:
  assumes "var_filtered_df s = Some r" and "deref s r = Inr filtered"
  shows "case explode_countries country_selected s of
           Inl e \<Rightarrow>
             bind_result (get_column filtered ''country'') (\<lambda>countries.
             bind_result (explode (set_column filtered ''country_exploded''
                                    (str_split '', '' countries)) ''country_exploded'') (\<lambda>tmp.
             bind_result (get_column tmp ''country_exploded'') (\<lambda>exploded.
             Inr (select_rows tmp (isin exploded country_selected))))) = Inl e
         | Inr s' \<Rightarrow>
             bind_result (get_column filtered ''country'') (\<lambda>countries.
             bind_result (explode (set_column filtered ''country_exploded''
                                    (str_split '', '' countries)) ''country_exploded'') (\<lambda>tmp.
             bind_result (get_column tmp ''country_exploded'') (\<lambda>exploded.
             Inr (select_rows tmp (isin exploded country_selected))))) = result_frame s' \<and>
             var_df s' = var_df s \<and> take (length (frames s)) (frames s') = frames s"
  using assms
  by (auto simp: explode_countries_def lookup_var_def deref_def Let_def bind_result_def
      result_frame_def nth_append split: sum.splits)

lemma exec_filter_pure:
  assumes "deref s (var_df s) = Inr df"
  shows "case exec_filter content_type year_range country_selected s of
           Inl e \<Rightarrow> filtered_df df content_type year_range country_selected = Inl e
         | Inr s' \<Rightarrow>
             result_frame s' = filtered_df df content_type year_range country_selected \<and>
             var_df s' = var_df s \<and> deref s' (var_df s') = Inr df"
proof (cases "type_year_filter df content_type year_range")
  case (Inl e)
  then show ?thesis
    by (simp add: exec_filter_def filtered_df_def assign_filtered_df_pure [OF assms])
next
  case (Inr selected)
  let ?s1 = "s\<lparr>frames := frames s @ [selected], var_filtered_df := Some (length (frames s))\<rparr>"
  from assms have bound: "var_df s < length (frames s)" and df: "frames s ! var_df s = df"
    by (auto simp: deref_def split: if_splits)
  show ?thesis
  proof (cases "country_selected = []")
    case True
    with Inr bound df show ?thesis
      by (simp add: exec_filter_def filtered_df_def assign_filtered_df_pure [OF assms]
          result_frame_def lookup_var_def deref_def nth_append)
  next
    case False
    have r: "var_filtered_df ?s1 = Some (length (frames s))"
      and f: "deref ?s1 (length (frames s)) = Inr selected"
      by (simp_all add: deref_def)
    have exec: "exec_filter content_type year_range country_selected s =
                  explode_countries country_selected ?s1"
      using Inr False by (simp add: exec_filter_def assign_filtered_df_pure [OF assms])
    have pure: "filtered_df df content_type year_range country_selected =
             bind_result (get_column selected ''country'') (\<lambda>countries.
             bind_result (explode (set_column selected ''country_exploded''
                                    (str_split '', '' countries)) ''country_exploded'') (\<lambda>tmp.
             bind_result (get_column tmp ''country_exploded'') (\<lambda>exploded.
             Inr (select_rows tmp (isin exploded country_selected)))))"
      using Inr False by (simp add: filtered_df_def)
    show ?thesis
    proof (cases "explode_countries country_selected ?s1")
      case (Inl e)
      with explode_countries_pure [OF r f, of country_selected] show ?thesis
        by (simp add: exec pure)
    next
      case after: (Inr s')
      with explode_countries_pure [OF r f, of country_selected]
      have result: "result_frame s' = filtered_df df content_type year_range country_selected"
        and var: "var_df s' = var_df s"
        and prefix: "take (length (frames ?s1)) (frames s') = frames ?s1"
        by (simp_all add: pure)
      have "length (frames ?s1) \<le> length (frames s')"
        using prefix by (metis length_take min.cobounded1)
      then have in_range: "var_df s < length (frames s')"
        using bound by simp
      have "frames s' ! var_df s = take (length (frames ?s1)) (frames s') ! var_df s"
        using bound by simp
      then have "frames s' ! var_df s = frames ?s1 ! var_df s"
        by (simp only: prefix)
      then have "frames s' ! var_df s = df"
        using bound df by (simp add: nth_append)
      with in_range var have "deref s' (var_df s') = Inr df"
        by (simp add: deref_def)
      with result var after show ?thesis
        by (simp add: exec)
    qed
  qed
qed

text \<open>
  C9. Whatever else the store holds, running lines 67-76 gives, as the frame
  \<^verbatim>\<open>filtered_df\<close> is bound to (or as the error raised), the value of \<open>filtered_df\<close> at the
  dataset and the selection; and running the lines a second time with the same selection,
  on the store the first run left, gives that same value again.
\<close>

theorem filter_rerun_same_output:
  assumes "deref s (var_df s) = Inr df"
  shows "bind_result (exec_filter content_type year_range country_selected s) result_frame =
           filtered_df df content_type year_range country_selected \<and>
         bind_result (exec_filter content_type year_range country_selected s)
           (\<lambda>s1. bind_result (exec_filter content_type year_range country_selected s1)
                   result_frame) =
           filtered_df df content_type year_range country_selected"
proof (cases "exec_filter content_type year_range country_selected s")
  case (Inl e)
  with exec_filter_pure [OF assms, of content_type year_range country_selected]
  show ?thesis by simp
next
  case first: (Inr s1)
  with exec_filter_pure [OF assms, of content_type year_range country_selected]
  have r1: "result_frame s1 = filtered_df df content_type year_range country_selected"
    and df1: "deref s1 (var_df s1) = Inr df"
    by auto
  have "bind_result (exec_filter content_type year_range country_selected s1) result_frame =
          filtered_df df content_type year_range country_selected"
    using exec_filter_pure [OF df1, of content_type year_range country_selected]
    by (cases "exec_filter content_type year_range country_selected s1") simp_all
  with first r1 show ?thesis by simp
qed

lemma demo_store_df: "deref demo_store (var_df demo_store) = Inr demo_df"
  by (simp add: demo_store_def deref_def)

text \<open>
  C9 on the example: the first and the second run both end with the two rows from Canada.
\<close>

theorem filter_rerun_same_output_witness:
  "deref demo_store (var_df demo_store) = Inr demo_df \<and>
   bind_result (exec_filter [CStr ''Movie''] (2018, 2021) [CStr ''Canada''] demo_store)
     result_frame = Inr demo_canada \<and>
   bind_result (exec_filter [CStr ''Movie''] (2018, 2021) [CStr ''Canada''] demo_store)
     (\<lambda>s1. bind_result (exec_filter [CStr ''Movie''] (2018, 2021) [CStr ''Canada''] s1)
        result_frame) = Inr demo_canada"
proof -
  have out: "filtered_df demo_df [CStr ''Movie''] (2018, 2021) [CStr ''Canada''] = Inr demo_canada"
    by code_simp
  from filter_rerun_same_output [OF demo_store_df,
      of "[CStr ''Movie'']" "(2018, 2021)" "[CStr ''Canada'']"]
  show ?thesis
    using demo_store_df by (simp add: out)
qed

end
